theory Spec2Isabelle
  imports Main
begin

section \<open>Exceptions\<close>

text \<open>
  The notebook has no exception classes of its own. What can be raised is raised by the
  Python runtime (\<open>ZeroDivisionError\<close> for a division by zero, \<open>ValueError\<close> for a tuple
  unpacking of the wrong length, \<open>NameError\<close> for a global that no cell has assigned yet)
  or by the imported framework, whose errors are kept opaque: a message.
\<close>

datatype exn = ZeroDivisionError | ValueError | NameError | FrameworkError string

section \<open>Load Datasets: ChunkSampler and the three loaders\<close>

text \<open>
  \<^verbatim>\<open>
  class ChunkSampler(sampler.Sampler):
      """Samples elements sequentially from some offset."""
      def __init__(self, num_samples, start = 0):
          self.num_samples = num_samples
          self.start = start
      def __iter__(self):
          return iter(range(self.start, self.start + self.num_samples))
      def __len__(self):
          return self.num_samples
  \<close>
  The two fields are Python integers, so they are \<open>int\<close> here.
\<close>

definition range2 :: "int \<Rightarrow> int \<Rightarrow> int list" where
  \<comment> \<open>Python's \<open>range(a, b)\<close>: a, a+1, ..., b-1; empty when \<open>b \<le> a\<close>.\<close>
  "range2 a b = [a..b - 1]"

datatype ChunkSampler = ChunkSampler int int
  \<comment> \<open>\<open>ChunkSampler num_samples start\<close>\<close>

fun ChunkSampler_iter :: "ChunkSampler \<Rightarrow> int list" where
  "ChunkSampler_iter (ChunkSampler num_samples start) = range2 start (start + num_samples)"

fun ChunkSampler_len :: "ChunkSampler \<Rightarrow> int" where
  "ChunkSampler_len (ChunkSampler num_samples start) = num_samples"

definition NUM_TRAIN :: int where
  "NUM_TRAIN = 49000"

definition NUM_VAL :: int where
  "NUM_VAL = 1000"

text \<open>
  \<open>dset.CIFAR10(root, train=..., download=True, transform=T.ToTensor())\<close>: only the root
  and the \<open>train\<close> flag are read by the notebook's own code.
\<close>

datatype CIFAR10 = CIFAR10 string bool

fun dataset_train :: "CIFAR10 \<Rightarrow> bool" where
  "dataset_train (CIFAR10 root flag) = flag"

text \<open>
  A \<open>DataLoader\<close>: the dataset, the batch size, the sampler given to it (\<open>None\<close> when the
  call names none), and what iterating it produces. The iteration belongs to the
  framework and the images to the disk, so \<open>yields\<close> is data of the loader: one entry
  for each \<open>next\<close>, either a batch \<open>(x, y)\<close> of images and labels or the exception that
  fetching it raised.
\<close>

record 'x DataLoader =
  dataset :: CIFAR10
  batch_size :: nat
  sampler :: "ChunkSampler option"
  yields :: "(exn + 'x \<times> nat list) list"

definition cifar10_train :: CIFAR10 where
  "cifar10_train = CIFAR10 ''./cs231n/datasets'' True"

definition cifar10_val :: CIFAR10 where
  "cifar10_val = CIFAR10 ''./cs231n/datasets'' True"

definition cifar10_test :: CIFAR10 where
  "cifar10_test = CIFAR10 ''./cs231n/datasets'' False"

definition loader_train :: "(exn + 'x \<times> nat list) list \<Rightarrow> 'x DataLoader" where
  "loader_train ys =
     \<lparr>dataset = cifar10_train, batch_size = 64,
      sampler = Some (ChunkSampler NUM_TRAIN 0), yields = ys\<rparr>"

definition loader_val :: "(exn + 'x \<times> nat list) list \<Rightarrow> 'x DataLoader" where
  "loader_val ys =
     \<lparr>dataset = cifar10_val, batch_size = 64,
      sampler = Some (ChunkSampler NUM_VAL NUM_TRAIN), yields = ys\<rparr>"

definition loader_test :: "(exn + 'x \<times> nat list) list \<Rightarrow> 'x DataLoader" where
  "loader_test ys =
     \<lparr>dataset = cifar10_test, batch_size = 64, sampler = None, yields = ys\<rparr>"

section \<open>Tensors and Flatten\<close>

text \<open>
  A tensor is a view of a storage: its size, its strides, the offset of its first
  element, and the storage. \<open>x.size()\<close> is \<open>shape x\<close>. The element at a multi-index is
  read from the storage at the offset of the tensor plus the sum of index times
  stride.
\<close>

record 'a tensor =
  shape :: "nat list"
  stride :: "nat list"
  storage_offset :: nat
  storage :: "'a list"

definition numel :: "'a tensor \<Rightarrow> nat" where
  "numel x = prod_list (shape x)"

definition offset :: "'a tensor \<Rightarrow> nat list \<Rightarrow> nat" where
  "offset x idx = storage_offset x + sum_list (map2 (*) idx (stride x))"

definition at :: "'a tensor \<Rightarrow> nat list \<Rightarrow> 'a" where
  "at x idx = storage x ! offset x idx"

definition wf_tensor :: "'a tensor \<Rightarrow> bool" where
  \<comment> \<open>one stride for every dimension, and the last element lies in the storage\<close>
  "wf_tensor x =
     (length (stride x) = length (shape x)
      \<and> (numel x = 0
         \<or> storage_offset x + sum_list (map2 (\<lambda>d s. (d - 1) * s) (shape x) (stride x))
             < length (storage x)))"

text \<open>
  \<open>x.is_contiguous()\<close>: the strides are those of the row-major layout, from the last
  dimension to the first; the stride of a dimension of size 1 is not looked at, and a
  tensor without elements is contiguous.
\<close>

fun contiguous_from :: "nat \<Rightarrow> (nat \<times> nat) list \<Rightarrow> bool" where
  "contiguous_from z [] = True"
| "contiguous_from z ((d, s) # rest) =
     (if d = 1 then contiguous_from z rest else s = z \<and> contiguous_from (z * d) rest)"

definition is_contiguous :: "'a tensor \<Rightarrow> bool" where
  "is_contiguous x = (numel x = 0 \<or> contiguous_from 1 (rev (zip (shape x) (stride x))))"

text \<open>
  \<open>x.view(*sizes)\<close> is the framework's. Its documented behaviour: the result shares the
  storage of \<open>x\<close>; at most one size may be \<open>-1\<close> and is inferred from the number of
  elements; a size that does not fit the number of elements raises, and so does a
  \<open>-1\<close> beside a size of zero (any value would fit). The new size must also be
  compatible with the size and the strides of \<open>x\<close>: a new dimension may span the old
  dimensions \<open>d, ..., d + k\<close> only if \<open>stride[i] = stride[i + 1] * size[i + 1]\<close> for each of
  them but the last; otherwise \<open>view\<close> raises.
\<close>

definition infer_size :: "int list \<Rightarrow> nat \<Rightarrow> exn + nat list" where
  "infer_size sz n =
     (if (\<exists>d \<in> set sz. d < - 1) \<or> 1 < length (filter (\<lambda>d. d = - 1) sz)
      then Inl (FrameworkError ''invalid shape dimension'')
      else let newsize = nat (prod_list (filter (\<lambda>d. d \<noteq> - 1) sz));
               infer = (- 1 \<in> set sz)
           in if n = newsize \<or> (infer \<and> 0 < newsize \<and> n mod newsize = 0)
              then (if infer
                    then (if newsize = 0
                          then Inl (FrameworkError ''unspecified dimension is ambiguous'')
                          else Inr (map (\<lambda>d. if d = - 1 then n div newsize else nat d) sz))
                    else Inr (map nat sz))
              else Inl (FrameworkError ''shape is invalid for input size''))"

text \<open>
  The strides of the view, as the framework computes them. The old dimensions are
  walked from the last to the first and cut into chunks, a chunk ending before a
  dimension (of size other than 1) whose stride is not the one that continues the
  chunk. \<open>fill\<close> gives the next new dimensions, from the last, their strides within the
  chunk, until they hold as many elements as the chunk; if they cannot hold exactly
  as many, or if new dimensions are left over at the end, there is no such view. The
  lists of dimensions are passed reversed.
\<close>

fun fill :: "nat \<Rightarrow> nat \<Rightarrow> nat \<Rightarrow> nat list \<Rightarrow> nat list \<Rightarrow> nat \<times> nat list \<times> nat list" where
  "fill base tensor_numel view_numel [] newstride = (view_numel, [], newstride)"
| "fill base tensor_numel view_numel (d # newshape) newstride =
     (if view_numel < tensor_numel \<or> d = 1
      then fill base tensor_numel (view_numel * d) newshape ((view_numel * base) # newstride)
      else (view_numel, d # newshape, newstride))"

fun chunks :: "(nat \<times> nat) list \<Rightarrow> nat \<Rightarrow> nat \<Rightarrow> nat list \<Rightarrow> nat list \<Rightarrow> nat list option" where
  "chunks [] base tensor_numel newshape newstride =
     (if newshape = [] then Some newstride else None)"
| "chunks ((d, s) # old) base tensor_numel newshape newstride =
     (let tensor_numel = tensor_numel * d;
          chunk_ends = (case old of [] \<Rightarrow> True
                        | (d1, s1) # _ \<Rightarrow> d1 \<noteq> 1 \<and> s1 \<noteq> tensor_numel * base)
      in if chunk_ends
         then (case fill base tensor_numel 1 newshape newstride of
                 (view_numel, newshape', newstride') \<Rightarrow>
                   if view_numel \<noteq> tensor_numel then None
                   else (case old of [] \<Rightarrow> chunks [] base 1 newshape' newstride'
                         | (d1, s1) # _ \<Rightarrow> chunks old s1 1 newshape' newstride'))
         else chunks old base tensor_numel newshape newstride)"

fun empty_strides :: "nat list \<Rightarrow> nat list" where
  \<comment> \<open>the strides given to a view of a tensor without elements\<close>
  "empty_strides [] = []"
| "empty_strides [d] = [1]"
| "empty_strides (d # d1 # ds) =
     (max d1 1 * hd (empty_strides (d1 # ds))) # empty_strides (d1 # ds)"

definition computeStride :: "nat list \<Rightarrow> nat list \<Rightarrow> nat list \<Rightarrow> nat list option" where
  "computeStride oldshape oldstride newshape =
     (if oldshape = [] then Some (replicate (length newshape) 1)
      else if prod_list oldshape = 0
        then (if oldshape = newshape then Some oldstride else Some (empty_strides newshape))
      else chunks (rev (zip oldshape oldstride)) (last oldstride) 1 (rev newshape) [])"

definition view :: "'a tensor \<Rightarrow> int list \<Rightarrow> exn + 'a tensor" where
  "view x sz =
     (case infer_size sz (numel x) of
        Inl e \<Rightarrow> Inl e
      | Inr s \<Rightarrow>
          (case computeStride (shape x) (stride x) s of
             None \<Rightarrow>
               Inl (FrameworkError
                      ''view size is not compatible with input tensor size and stride'')
           | Some st \<Rightarrow> Inr (x\<lparr>shape := s, stride := st\<rparr>)))"

text \<open>
  \<^verbatim>\<open>
  class Flatten(nn.Module):
      def forward(self, x):
          N, C, H, W = x.size() # read in N, C, H, W
          return x.view(N, -1)  # "flatten" the C * H * W values into a single vector per image
  \<close>
  The unpacking raises \<open>ValueError\<close> unless \<open>x\<close> has exactly four dimensions.
\<close>

definition Flatten_forward :: "'a tensor \<Rightarrow> exn + 'a tensor" where
  "Flatten_forward x =
     (case shape x of
        [N, C, H, W] \<Rightarrow> view x [int N, - 1]
      | _ \<Rightarrow> Inl ValueError)"

section \<open>Layer configurations and their sizes\<close>

text \<open>
  The layers the notebook configures, with the arguments it passes:
  \<open>Conv2d in_channels out_channels kernel_size stride padding\<close>, \<open>BatchNorm2d
  num_features\<close>, \<open>MaxPool2d kernel_size stride\<close>, \<open>Linear in_features out_features\<close>.
  All but \<open>Flatten\<close> are the framework's; \<open>layer_size\<close> is the size each one documents
  for its output, and the failure it documents for an input that does not fit. For
  \<open>Flatten\<close> it is what \<open>Flatten_forward\<close> does to the size of a contiguous tensor, as
  the layers before it return.
\<close>

datatype layer =
    Conv2d nat nat nat nat nat
  | ReLU
  | BatchNorm2d nat
  | MaxPool2d nat nat
  | Flatten
  | Linear nat nat

definition conv_out :: "nat \<Rightarrow> nat \<Rightarrow> nat \<Rightarrow> nat \<Rightarrow> nat" where
  \<comment> \<open>\<open>floor((h + 2 * padding - kernel_size) / stride) + 1\<close>\<close>
  "conv_out h k s p = (h + 2 * p - k) div s + 1"

fun layer_size :: "layer \<Rightarrow> nat list \<Rightarrow> exn + nat list" where
  "layer_size (Conv2d cin cout k s p) [N, C, H, W] =
     (if C \<noteq> cin then Inl (FrameworkError ''input channels do not match'')
      else if s = 0 then Inl (FrameworkError ''stride must be positive'')
      else if H + 2 * p < k \<or> W + 2 * p < k
        then Inl (FrameworkError ''kernel size larger than input'')
      else Inr [N, cout, conv_out H k s p, conv_out W k s p])"
| "layer_size (Conv2d cin cout k s p) sz = Inl (FrameworkError ''expected 4D input'')"
| "layer_size ReLU sz = Inr sz"
| "layer_size (BatchNorm2d c) [N, C, H, W] =
     (if C \<noteq> c then Inl (FrameworkError ''running_mean size does not match'')
      else Inr [N, C, H, W])"
| "layer_size (BatchNorm2d c) sz = Inl (FrameworkError ''expected 4D input'')"
| "layer_size (MaxPool2d k s) [N, C, H, W] =
     (if s = 0 then Inl (FrameworkError ''stride must be positive'')
      else if H < k \<or> W < k then Inl (FrameworkError ''output size is too small'')
      else Inr [N, C, conv_out H k s 0, conv_out W k s 0])"
| "layer_size (MaxPool2d k s) sz = Inl (FrameworkError ''expected 4D input'')"
| "layer_size Flatten [N, C, H, W] =
     (if N = 0 then Inl (FrameworkError ''unspecified dimension is ambiguous'')
      else Inr [N, C * H * W])"
| "layer_size Flatten sz = Inl ValueError"
| "layer_size (Linear fin fout) sz =
     (if sz \<noteq> [] \<and> last sz = fin then Inr (butlast sz @ [fout])
      else Inl (FrameworkError ''size mismatch''))"

text \<open>
  \<open>nn.Sequential\<close> applies each layer to the output of the one before.
  \<open>Sequential_sizes\<close> returns the size after every layer, or the first failure.
\<close>

fun Sequential_sizes :: "layer list \<Rightarrow> nat list \<Rightarrow> exn + nat list list" where
  "Sequential_sizes [] sz = Inr []"
| "Sequential_sizes (l # ls) sz =
     (case layer_size l sz of
        Inl e \<Rightarrow> Inl e
      | Inr sz' \<Rightarrow>
          (case Sequential_sizes ls sz' of
             Inl e \<Rightarrow> Inl e
           | Inr szs \<Rightarrow> Inr (sz' # szs)))"

definition simple_model :: "layer list" where
  "simple_model = [Conv2d 3 32 7 2 0, ReLU, Flatten, Linear 5408 10]"

definition fixed_model_base :: "layer list" where
  "fixed_model_base =
     [Conv2d 3 32 7 1 0, ReLU, BatchNorm2d 32, MaxPool2d 2 2, Flatten,
      Linear 5408 1024, ReLU, Linear 1024 10]"

definition best_model_layers :: "layer list" where
  \<comment> \<open>the \<open>model\<close> of the last training cell\<close>
  "best_model_layers =
     [Conv2d 3 32 3 1 1, ReLU, BatchNorm2d 32, MaxPool2d 2 2,
      Conv2d 32 64 3 1 1, ReLU, BatchNorm2d 64, MaxPool2d 2 2,
      Conv2d 64 128 3 1 1, ReLU, BatchNorm2d 128,
      Flatten, Linear 8192 1024, ReLU, Linear 1024 10]"

section \<open>Effects: the world, framework calls, printing\<close>

text \<open>
  The helpers \<open>train\<close> and \<open>check_accuracy\<close> do three kinds of things: they call into the
  framework, they print, and they compute on Python values. The framework's state
  (parameters, gradients, buffers, optimizer state, the device) is a world \<open>'w\<close> that
  every framework call may read and change; a call returns a value or raises. What a
  run did, in order, is kept as a list of events: each framework call with the
  exception it raised, if any, and each printed line.
\<close>

datatype call =
    LoaderNext | ToVariable | ToLongVariable | ModelTrain | ModelEval | Forward
  | LossFn | Item | ZeroGrad | Backward | Step | Max1 | EqSum

datatype event = Print string | Call call "exn option"

type_synonym ('w, 'a) meth = "'w \<Rightarrow> (exn + 'a) \<times> 'w"

type_synonym ('w, 'a) action = "'w \<Rightarrow> (exn + 'a) \<times> 'w \<times> event list"

definition ret :: "'a \<Rightarrow> ('w, 'a) action" where
  "ret a w = (Inr a, w, [])"

definition raise :: "exn \<Rightarrow> ('w, 'a) action" where
  \<comment> \<open>an exception of the Python runtime, raised by the notebook's own statement\<close>
  "raise e w = (Inl e, w, [])"

definition print :: "string \<Rightarrow> ('w, unit) action" where
  "print s w = (Inr (), w, [Print s])"

definition invoke :: "call \<Rightarrow> ('w, 'a) meth \<Rightarrow> ('w, 'a) action" where
  "invoke k f w =
     (case f w of
        (Inl e, w') \<Rightarrow> (Inl e, w', [Call k (Some e)])
      | (Inr a, w') \<Rightarrow> (Inr a, w', [Call k None]))"

text \<open>
  Sequencing: the second statement runs in the world the first one left, unless the
  first one raised; nothing in the notebook catches an exception.
\<close>

definition bindA :: "('w, 'a) action \<Rightarrow> ('a \<Rightarrow> ('w, 'b) action) \<Rightarrow> ('w, 'b) action" where
  "bindA m f w =
     (case m w of
        (Inl e, w', evs) \<Rightarrow> (Inl e, w', evs)
      | (Inr a, w', evs) \<Rightarrow>
          (case f a w' of (r, w'', evs') \<Rightarrow> (r, w'', evs @ evs')))"

text \<open>A \<open>for\<close> loop over a list, with the local variables it updates as an accumulator.\<close>

fun fold_in :: "('a \<Rightarrow> 'acc \<Rightarrow> ('w, 'acc) action) \<Rightarrow> 'a list \<Rightarrow> 'acc \<Rightarrow> ('w, 'acc) action" where
  "fold_in body [] acc = ret acc"
| "fold_in body (x # xs) acc = bindA (body x acc) (fold_in body xs)"

definition for_in :: "('a \<Rightarrow> ('w, unit) action) \<Rightarrow> 'a list \<Rightarrow> ('w, unit) action" where
  "for_in body xs = fold_in (\<lambda>x u. body x) xs ()"

definition printed :: "event list \<Rightarrow> string list" where
  "printed evs = concat (map (\<lambda>ev. case ev of Print s \<Rightarrow> [s] | Call k r \<Rightarrow> []) evs)"

definition calls :: "event list \<Rightarrow> call list" where
  "calls evs = concat (map (\<lambda>ev. case ev of Print s \<Rightarrow> [] | Call k r \<Rightarrow> [k]) evs)"

section \<open>The framework's objects, as the helpers use them\<close>

text \<open>
  An \<open>nn.Module\<close> is used through \<open>model.train()\<close>, \<open>model.eval()\<close> and \<open>model(x_var)\<close>; an
  optimizer through \<open>zero_grad()\<close> and \<open>step()\<close>; a loss value through
  \<open>loss.data.item()\<close> and \<open>loss.backward()\<close>. Labels and predictions are tensors of class
  indices, \<open>nat list\<close>; images \<open>'x\<close>, scores \<open>'s\<close> and floats \<open>'f\<close> stay abstract.
\<close>

record ('w, 'x, 's) module =
  m_train :: "('w, unit) meth"
  m_eval :: "('w, unit) meth"
  m_call :: "'x \<Rightarrow> ('w, 's) meth"

record 'w optimizer =
  zero_grad :: "('w, unit) meth"
  step :: "('w, unit) meth"

record ('w, 'f) loss =
  item :: "('w, 'f) meth"
  backward :: "('w, unit) meth"

text \<open>
  What the helpers take from their surroundings: the conversions
  \<open>Variable(x.type(gpu_dtype))\<close> (with \<open>volatile=True\<close> in \<open>check_accuracy\<close>) and
  \<open>Variable(y.type(gpu_dtype).long())\<close>, the reduction \<open>scores.data.cpu().max(1)\<close> (its
  second component, the index of the maximum of every row), and Python's float
  arithmetic and \<open>%.nf\<close> formatting.
\<close>

record ('w, 'x, 's, 'f) env =
  Variable :: "bool \<Rightarrow> 'x \<Rightarrow> ('w, 'x) meth"
  LongVariable :: "nat list \<Rightarrow> ('w, nat list) meth"
  max1 :: "'s \<Rightarrow> ('w, nat list) meth"
  float_div :: "int \<Rightarrow> int \<Rightarrow> 'f"
  float_mul :: "int \<Rightarrow> 'f \<Rightarrow> 'f"
  format_f :: "nat \<Rightarrow> 'f \<Rightarrow> string"

section \<open>Formatting integers\<close>

definition digit :: "nat \<Rightarrow> char" where
  "digit n = ''0123456789'' ! n"

fun show_nat :: "nat \<Rightarrow> string" where
  "show_nat n = (if n < 10 then [digit n] else show_nat (n div 10) @ [digit (n mod 10)])"

declare show_nat.simps [simp del]

definition show_int :: "int \<Rightarrow> string" where
  \<comment> \<open>\<open>'%d' % i\<close>\<close>
  "show_int i = (if i < 0 then CHR ''-'' # show_nat (nat (- i)) else show_nat (nat i))"

section \<open>train\<close>

text \<open>
  \<^verbatim>\<open>
  print_every = 100

  def train(model, loss_fn, optimizer, num_epochs = 1):
      for epoch in range(num_epochs):
          print('Starting epoch %d / %d' % (epoch + 1, num_epochs))
          model.train()
          for t, (x, y) in enumerate(loader_train):
              x_var = Variable(x.type(gpu_dtype))
              y_var = Variable(y.type(gpu_dtype).long())
              scores = model(x_var)
              loss = loss_fn(scores, y_var)
              if (t + 1) % print_every == 0:
                  print('t = %d, loss = %.4f' % (t + 1, loss.data.item()))
              optimizer.zero_grad()
              loss.backward()
              optimizer.step()
  \<close>
  \<open>loader_train\<close> and the conversions are globals of the notebook; here they are the
  first two arguments.
\<close>

definition print_every :: nat where
  "print_every = 100"

definition progress_line :: "('w, 'x, 's, 'f) env \<Rightarrow> nat \<Rightarrow> 'f \<Rightarrow> string" where
  \<comment> \<open>\<open>'t = %d, loss = %.4f' % (k, v)\<close>\<close>
  "progress_line E k v = ''t = '' @ show_int (int k) @ '', loss = '' @ format_f E 4 v"

definition epoch_line :: "int \<Rightarrow> int \<Rightarrow> string" where
  \<comment> \<open>\<open>'Starting epoch %d / %d' % (epoch + 1, num_epochs)\<close>\<close>
  "epoch_line epoch num_epochs =
     ''Starting epoch '' @ show_int (epoch + 1) @ '' / '' @ show_int num_epochs"

definition train_batch ::
  "('w, 'x, 's, 'f) env \<Rightarrow> ('w, 'x, 's) module \<Rightarrow> ('s \<Rightarrow> nat list \<Rightarrow> ('w, ('w, 'f) loss) meth)
    \<Rightarrow> 'w optimizer \<Rightarrow> nat \<times> (exn + 'x \<times> nat list) \<Rightarrow> ('w, unit) action" where
  "train_batch E model loss_fn optimizer = (\<lambda>(t, b).
     bindA (invoke LoaderNext (\<lambda>w. (b, w))) (\<lambda>(x, y).
     bindA (invoke ToVariable (Variable E False x)) (\<lambda>x_var.
     bindA (invoke ToLongVariable (LongVariable E y)) (\<lambda>y_var.
     bindA (invoke Forward (m_call model x_var)) (\<lambda>scores.
     bindA (invoke LossFn (loss_fn scores y_var)) (\<lambda>loss.
     bindA (if (t + 1) mod print_every = 0
            then bindA (invoke Item (item loss)) (\<lambda>v. print (progress_line E (t + 1) v))
            else ret ()) (\<lambda>u.
     bindA (invoke ZeroGrad (zero_grad optimizer)) (\<lambda>u.
     bindA (invoke Backward (backward loss)) (\<lambda>u.
     invoke Step (step optimizer))))))))))"

definition train_epoch ::
  "('w, 'x, 's, 'f) env \<Rightarrow> 'x DataLoader \<Rightarrow> ('w, 'x, 's) module
    \<Rightarrow> ('s \<Rightarrow> nat list \<Rightarrow> ('w, ('w, 'f) loss) meth)
    \<Rightarrow> 'w optimizer \<Rightarrow> int \<Rightarrow> int \<Rightarrow> ('w, unit) action" where
  "train_epoch E loader model loss_fn optimizer num_epochs epoch =
     bindA (print (epoch_line epoch num_epochs)) (\<lambda>u.
     bindA (invoke ModelTrain (m_train model)) (\<lambda>u.
     for_in (train_batch E model loss_fn optimizer) (enumerate 0 (yields loader))))"

definition train ::
  "('w, 'x, 's, 'f) env \<Rightarrow> 'x DataLoader \<Rightarrow> ('w, 'x, 's) module
    \<Rightarrow> ('s \<Rightarrow> nat list \<Rightarrow> ('w, ('w, 'f) loss) meth)
    \<Rightarrow> 'w optimizer \<Rightarrow> int \<Rightarrow> ('w, unit) action" where
  "train E loader model loss_fn optimizer num_epochs =
     for_in (train_epoch E loader model loss_fn optimizer num_epochs) (range2 0 num_epochs)"

text \<open>
  The cell that trains in place runs the same loop on the globals, without the line
  of the epoch:
  \<^verbatim>\<open>
  fixed_model_gpu.train()
  for t, (x, y) in enumerate(loader_train):
      x_var = Variable(x.type(gpu_dtype))
      y_var = Variable(y.type(gpu_dtype).long())
      scores = fixed_model_gpu(x_var)
      loss = loss_fn(scores, y_var)
      if (t + 1) % print_every == 0:
          print('t = %d, loss = %.4f' % (t + 1,loss.data.item()))
      optimizer.zero_grad()
      loss.backward()
      optimizer.step()
  \<close>
\<close>

definition training_loop ::
  "('w, 'x, 's, 'f) env \<Rightarrow> 'x DataLoader \<Rightarrow> ('w, 'x, 's) module
    \<Rightarrow> ('s \<Rightarrow> nat list \<Rightarrow> ('w, ('w, 'f) loss) meth)
    \<Rightarrow> 'w optimizer \<Rightarrow> ('w, unit) action" where
  "training_loop E loader model loss_fn optimizer =
     bindA (invoke ModelTrain (m_train model)) (\<lambda>u.
     for_in (train_batch E model loss_fn optimizer) (enumerate 0 (yields loader)))"

section \<open>check_accuracy\<close>

text \<open>
  \<^verbatim>\<open>
  def check_accuracy(model, loader):
      if loader.dataset.train:
          print('Checking accuracy on validation set')
      else:
          print('Checking accuracy on test set')
      num_correct = 0
      num_samples = 0
      model.eval() # Put the model in test mode (the opposite of model.train(), essentially)
      for x, y in loader:
          x_var = Variable(x.type(gpu_dtype), volatile=True)
          scores = model(x_var)
          _, preds = scores.data.cpu().max(1)
          num_correct += (preds == y).sum()
          num_samples += preds.size(0)
      acc = float(num_correct) / num_samples
      print('Got %d / %d correct (%.2f)' % (num_correct, num_samples, 100 * acc))
  \<close>
  \<open>(preds == y).sum()\<close> compares two one-dimensional tensors of class indices
  elementwise and counts the equal positions. Tensors of different lengths are compared
  by broadcasting when one of them has a single element, and raise otherwise.
\<close>

definition eq_sum :: "nat list \<Rightarrow> nat list \<Rightarrow> exn + int" where
  "eq_sum preds y =
     (if length preds = length y
        then Inr (int (length (filter (\<lambda>(p, l). p = l) (zip preds y))))
      else if length preds = 1
        then Inr (int (length (filter (\<lambda>l. hd preds = l) y)))
      else if length y = 1
        then Inr (int (length (filter (\<lambda>p. p = hd y) preds)))
      else Inl (FrameworkError ''The size of tensor a must match the size of tensor b''))"

definition check_batch ::
  "('w, 'x, 's, 'f) env \<Rightarrow> ('w, 'x, 's) module \<Rightarrow> (exn + 'x \<times> nat list)
    \<Rightarrow> int \<times> int \<Rightarrow> ('w, int \<times> int) action" where
  "check_batch E model b = (\<lambda>(num_correct, num_samples).
     bindA (invoke LoaderNext (\<lambda>w. (b, w))) (\<lambda>(x, y).
     bindA (invoke ToVariable (Variable E True x)) (\<lambda>x_var.
     bindA (invoke Forward (m_call model x_var)) (\<lambda>scores.
     bindA (invoke Max1 (max1 E scores)) (\<lambda>preds.
     bindA (invoke EqSum (\<lambda>w. (eq_sum preds y, w))) (\<lambda>c.
     ret (num_correct + c, num_samples + int (length preds))))))))"

definition true_div :: "('w, 'x, 's, 'f) env \<Rightarrow> int \<Rightarrow> int \<Rightarrow> ('w, 'f) action" where
  \<comment> \<open>\<open>float(a) / b\<close>: Python raises on a zero divisor\<close>
  "true_div E a b = (if b = 0 then raise ZeroDivisionError else ret (float_div E a b))"

definition result_line :: "('w, 'x, 's, 'f) env \<Rightarrow> int \<Rightarrow> int \<Rightarrow> 'f \<Rightarrow> string" where
  \<comment> \<open>\<open>'Got %d / %d correct (%.2f)' % (num_correct, num_samples, 100 * acc)\<close>\<close>
  "result_line E num_correct num_samples acc =
     ''Got '' @ show_int num_correct @ '' / '' @ show_int num_samples
       @ '' correct ('' @ format_f E 2 (float_mul E 100 acc) @ '')''"

definition check_accuracy ::
  "('w, 'x, 's, 'f) env \<Rightarrow> ('w, 'x, 's) module \<Rightarrow> 'x DataLoader \<Rightarrow> ('w, unit) action" where
  "check_accuracy E model loader =
     bindA (if dataset_train (dataset loader)
            then print ''Checking accuracy on validation set''
            else print ''Checking accuracy on test set'') (\<lambda>u.
     bindA (invoke ModelEval (m_eval model)) (\<lambda>u.
     bindA (fold_in (check_batch E model) (yields loader) (0, 0)) (\<lambda>(num_correct, num_samples).
     bindA (true_div E num_correct num_samples) (\<lambda>acc.
     print (result_line E num_correct num_samples acc)))))"

section \<open>Reading a run\<close>

text \<open>
  The framework calls of one iteration of the training loop, for the iteration with
  index \<open>t\<close> (counted from 0, as \<open>enumerate\<close> does): the loss is read with \<open>item\<close> only
  in the iterations that print.
\<close>

definition iteration_calls :: "nat \<Rightarrow> call list" where
  "iteration_calls t =
     [LoaderNext, ToVariable, ToLongVariable, Forward, LossFn]
     @ (if (t + 1) mod print_every = 0 then [Item] else [])
     @ [ZeroGrad, Backward, Step]"

definition is_step :: "call \<Rightarrow> bool" where
  \<comment> \<open>the five steps of an iteration: forward, loss, zeroing, backward, update\<close>
  "is_step k = (k \<in> set [Forward, LossFn, ZeroGrad, Backward, Step])"

text \<open>
  What one iteration of the training loop is to do to the world of the framework, for
  the batch \<open>(x, y)\<close> and the iteration index \<open>t\<close>. \<open>batch_loss\<close>: the images and the
  labels are converted, the forward pass \<open>model(x_var)\<close> gives the scores, and
  \<open>loss_fn(scores, y_var)\<close> the loss. \<open>read_loss\<close>: in an iteration with
  \<open>(t + 1) % print_every == 0\<close> the value of the loss is read with \<open>loss.data.item()\<close>.
  \<open>gradient_step\<close>: the gradients are zeroed, \<open>loss.backward()\<close> computes them, and
  \<open>optimizer.step()\<close> updates the parameters. Every call runs in the world the one
  before it left; the result is \<open>None\<close> when a call raises. \<open>iteration\<close> gives the value
  read, if one was, and the world after the update; \<open>iterations\<close> does so for the
  batches of one epoch in order, the first with index \<open>t\<close>; \<open>epochs\<close> for a number of
  epochs, each after \<open>model.train()\<close>.
\<close>

definition batch_loss ::
  "('w, 'x, 's, 'f) env \<Rightarrow> ('w, 'x, 's) module \<Rightarrow> ('s \<Rightarrow> nat list \<Rightarrow> ('w, ('w, 'f) loss) meth)
    \<Rightarrow> 'x \<times> nat list \<Rightarrow> 'w \<Rightarrow> (('w, 'f) loss \<times> 'w) option" where
  "batch_loss E model loss_fn = (\<lambda>(x, y) w.
     case Variable E False x w of
       (Inl e, w1) \<Rightarrow> None
     | (Inr x_var, w1) \<Rightarrow>
         (case LongVariable E y w1 of
            (Inl e, w2) \<Rightarrow> None
          | (Inr y_var, w2) \<Rightarrow>
              (case m_call model x_var w2 of
                 (Inl e, w3) \<Rightarrow> None
               | (Inr scores, w3) \<Rightarrow>
                   (case loss_fn scores y_var w3 of
                      (Inl e, w4) \<Rightarrow> None
                    | (Inr loss, w4) \<Rightarrow> Some (loss, w4)))))"

definition read_loss :: "nat \<Rightarrow> ('w, 'f) loss \<Rightarrow> 'w \<Rightarrow> ('f option \<times> 'w) option" where
  "read_loss t loss w =
     (if (t + 1) mod print_every = 0
      then (case item loss w of (Inl e, w1) \<Rightarrow> None | (Inr v, w1) \<Rightarrow> Some (Some v, w1))
      else Some (None, w))"

definition gradient_step :: "'w optimizer \<Rightarrow> ('w, 'f) loss \<Rightarrow> 'w \<Rightarrow> 'w option" where
  "gradient_step optimizer loss w =
     (case zero_grad optimizer w of
        (Inl e, w1) \<Rightarrow> None
      | (Inr u, w1) \<Rightarrow>
          (case backward loss w1 of
             (Inl e, w2) \<Rightarrow> None
           | (Inr u, w2) \<Rightarrow>
               (case step optimizer w2 of
                  (Inl e, w3) \<Rightarrow> None
                | (Inr u, w3) \<Rightarrow> Some w3)))"

definition iteration ::
  "('w, 'x, 's, 'f) env \<Rightarrow> ('w, 'x, 's) module \<Rightarrow> ('s \<Rightarrow> nat list \<Rightarrow> ('w, ('w, 'f) loss) meth)
    \<Rightarrow> 'w optimizer \<Rightarrow> nat \<Rightarrow> 'x \<times> nat list \<Rightarrow> 'w \<Rightarrow> ('f option \<times> 'w) option" where
  "iteration E model loss_fn optimizer t b w =
     (case batch_loss E model loss_fn b w of
        None \<Rightarrow> None
      | Some (loss, w1) \<Rightarrow>
          (case read_loss t loss w1 of
             None \<Rightarrow> None
           | Some (v, w2) \<Rightarrow>
               (case gradient_step optimizer loss w2 of
                  None \<Rightarrow> None
                | Some w3 \<Rightarrow> Some (v, w3))))"

fun iterations ::
  "('w, 'x, 's, 'f) env \<Rightarrow> ('w, 'x, 's) module \<Rightarrow> ('s \<Rightarrow> nat list \<Rightarrow> ('w, ('w, 'f) loss) meth)
    \<Rightarrow> 'w optimizer \<Rightarrow> nat \<Rightarrow> ('x \<times> nat list) list \<Rightarrow> 'w \<Rightarrow> ('f option list \<times> 'w) option" where
  "iterations E model loss_fn optimizer t [] w = Some ([], w)"
| "iterations E model loss_fn optimizer t (b # bs) w =
     (case iteration E model loss_fn optimizer t b w of
        None \<Rightarrow> None
      | Some (v, w1) \<Rightarrow>
          (case iterations E model loss_fn optimizer (t + 1) bs w1 of
             None \<Rightarrow> None
           | Some (vs, w2) \<Rightarrow> Some (v # vs, w2)))"

fun epochs ::
  "('w, 'x, 's, 'f) env \<Rightarrow> ('w, 'x, 's) module \<Rightarrow> ('s \<Rightarrow> nat list \<Rightarrow> ('w, ('w, 'f) loss) meth)
    \<Rightarrow> 'w optimizer \<Rightarrow> nat \<Rightarrow> ('x \<times> nat list) list \<Rightarrow> 'w \<Rightarrow> ('f option list list \<times> 'w) option" where
  "epochs E model loss_fn optimizer 0 bs w = Some ([], w)"
| "epochs E model loss_fn optimizer (Suc n) bs w =
     (case m_train model w of
        (Inl e, w1) \<Rightarrow> None
      | (Inr u, w1) \<Rightarrow>
          (case iterations E model loss_fn optimizer 0 bs w1 of
             None \<Rightarrow> None
           | Some (vs, w2) \<Rightarrow>
               (case epochs E model loss_fn optimizer n bs w2 of
                  None \<Rightarrow> None
                | Some (vss, w3) \<Rightarrow> Some (vs # vss, w3))))"

text \<open>
  The lines printed for the values \<open>vs\<close> read in the iterations \<open>t, t + 1, ...\<close>: one
  progress line for every value that was read. \<open>epoch_lines\<close>: the line of every epoch,
  from \<open>epoch\<close> on, followed by the progress lines of its iterations.
\<close>

fun progress_lines :: "('w, 'x, 's, 'f) env \<Rightarrow> nat \<Rightarrow> 'f option list \<Rightarrow> string list" where
  "progress_lines E t [] = []"
| "progress_lines E t (None # vs) = progress_lines E (t + 1) vs"
| "progress_lines E t (Some v # vs) = progress_line E (t + 1) v # progress_lines E (t + 1) vs"

fun epoch_lines ::
  "('w, 'x, 's, 'f) env \<Rightarrow> int \<Rightarrow> int \<Rightarrow> 'f option list list \<Rightarrow> string list" where
  "epoch_lines E num_epochs epoch [] = []"
| "epoch_lines E num_epochs epoch (vs # vss) =
     epoch_line epoch num_epochs # progress_lines E 0 vs @ epoch_lines E num_epochs (epoch + 1) vss"

definition batch_events :: "event list" where
  \<comment> \<open>the events of one iteration of the loop of \<open>check_accuracy\<close> in which nothing raises\<close>
  "batch_events = map (\<lambda>k. Call k None) [LoaderNext, ToVariable, Forward, Max1, EqSum]"

definition header_line :: "'x DataLoader \<Rightarrow> string" where
  \<comment> \<open>the line the first statement of \<open>check_accuracy\<close> prints\<close>
  "header_line loader =
     (if dataset_train (dataset loader) then ''Checking accuracy on validation set''
      else ''Checking accuracy on test set'')"

text \<open>
  The exceptions that framework calls raised during a run, in order. A run
  \<open>propagated\<close> them when it either returned and no call raised, or raised \<open>e\<close> and the
  one call that raised is the last event of the run and raised this \<open>e\<close>. With \<open>own\<close>
  the run may also end in the \<open>ZeroDivisionError\<close> of the notebook's own division,
  after calls that all returned.
\<close>

definition raises :: "event list \<Rightarrow> exn list" where
  "raises evs =
     concat (map (\<lambda>ev. case ev of Print s \<Rightarrow> []
                          | Call k r \<Rightarrow> (case r of None \<Rightarrow> [] | Some e \<Rightarrow> [e])) evs)"

definition propagated :: "bool \<Rightarrow> exn + 'a \<Rightarrow> event list \<Rightarrow> bool" where
  "propagated own r evs =
     (case r of
        Inr a \<Rightarrow> raises evs = []
      | Inl e \<Rightarrow> (\<exists>k pre. evs = pre @ [Call k (Some e)] \<and> raises pre = [])
                \<or> (own \<and> e = ZeroDivisionError \<and> raises evs = []))"

definition propagates :: "bool \<Rightarrow> ('w, 'a) action \<Rightarrow> bool" where
  "propagates own a = (\<forall>w r w' evs. a w = (r, w', evs) \<longrightarrow> propagated own r evs)"

section \<open>What is asked of the framework\<close>

text \<open>
  The framework is not part of the notebook. Two properties of it are hypotheses of
  theorems below. \<open>never_raises\<close>: every call the training loop makes returns.
  \<open>built_over\<close>: with \<open>P w m\<close> the values of the parameters of the module \<open>m\<close> in the
  world \<open>w\<close>, no call of the training loop changes the parameters of any module,
  except \<open>optimizer.step()\<close>, which may change those of \<open>owner\<close>, the module whose
  \<open>parameters()\<close> the optimizer was constructed over.
\<close>

definition succeeds :: "('w, 'a) meth \<Rightarrow> bool" where
  "succeeds f = (\<forall>w. \<exists>a w'. f w = (Inr a, w'))"

definition never_raises ::
  "('w, 'x, 's, 'f) env \<Rightarrow> ('w, 'x, 's) module \<Rightarrow> ('s \<Rightarrow> nat list \<Rightarrow> ('w, ('w, 'f) loss) meth)
    \<Rightarrow> 'w optimizer \<Rightarrow> bool" where
  "never_raises E model loss_fn optimizer =
     ((\<forall>v x. succeeds (Variable E v x)) \<and> (\<forall>y. succeeds (LongVariable E y))
      \<and> succeeds (m_train model) \<and> (\<forall>x. succeeds (m_call model x))
      \<and> (\<forall>s y w. \<exists>l w'. loss_fn s y w = (Inr l, w') \<and> succeeds (item l) \<and> succeeds (backward l))
      \<and> succeeds (zero_grad optimizer) \<and> succeeds (step optimizer))"

definition keeps :: "('w \<Rightarrow> 'r \<Rightarrow> 'p) \<Rightarrow> 'r set \<Rightarrow> ('w, 'a) meth \<Rightarrow> bool" where
  "keeps P S f = (\<forall>w r w'. f w = (r, w') \<longrightarrow> (\<forall>m. m \<notin> S \<longrightarrow> P w' m = P w m))"

definition keepsA :: "('w \<Rightarrow> 'r \<Rightarrow> 'p) \<Rightarrow> 'r set \<Rightarrow> ('w, 'a) action \<Rightarrow> bool" where
  "keepsA P S a = (\<forall>w r w' evs. a w = (r, w', evs) \<longrightarrow> (\<forall>m. m \<notin> S \<longrightarrow> P w' m = P w m))"

definition built_over ::
  "('w \<Rightarrow> 'r \<Rightarrow> 'p) \<Rightarrow> 'r \<Rightarrow> ('w, 'x, 's, 'f) env \<Rightarrow> ('w, 'x, 's) module
    \<Rightarrow> ('s \<Rightarrow> nat list \<Rightarrow> ('w, ('w, 'f) loss) meth) \<Rightarrow> 'w optimizer \<Rightarrow> bool" where
  "built_over P owner E model loss_fn optimizer =
     ((\<forall>v x. keeps P {} (Variable E v x)) \<and> (\<forall>y. keeps P {} (LongVariable E y))
      \<and> keeps P {} (m_train model) \<and> (\<forall>x. keeps P {} (m_call model x))
      \<and> (\<forall>s y. keeps P {} (loss_fn s y))
      \<and> (\<forall>s y w l w'. loss_fn s y w = (Inr l, w') \<longrightarrow> keeps P {} (item l) \<and> keeps P {} (backward l))
      \<and> keeps P {} (zero_grad optimizer) \<and> keeps P {owner} (step optimizer))"

section \<open>What the model predicts\<close>

text \<open>
  The statement of what \<open>check_accuracy\<close> counts needs the predictions it counts over:
  for the batches \<open>bs\<close> in order, starting in the world \<open>w\<close>, the tensor of predicted
  classes of each batch, that is what \<open>scores.data.cpu().max(1)\<close> returns for the scores
  the model returns for the batch. The world is threaded through the calls as the
  loop threads it; the list stops at a call that raises.
\<close>

fun predictions ::
  "('w, 'x, 's, 'f) env \<Rightarrow> ('w, 'x, 's) module \<Rightarrow> ('x \<times> nat list) list \<Rightarrow> 'w \<Rightarrow> nat list list" where
  "predictions E model [] w = []"
| "predictions E model ((x, y) # bs) w =
     (case Variable E True x w of
        (Inl e, w1) \<Rightarrow> []
      | (Inr x_var, w1) \<Rightarrow>
          (case m_call model x_var w1 of
             (Inl e, w2) \<Rightarrow> []
           | (Inr scores, w2) \<Rightarrow>
               (case max1 E scores w2 of
                  (Inl e, w3) \<Rightarrow> []
                | (Inr preds, w3) \<Rightarrow> preds # predictions E model bs w3)))"

text \<open>
  \<open>samples P L\<close>: the pairs (predicted class, label) of all samples, for the predictions
  \<open>P\<close> and the labels \<open>L\<close> of the batches. \<open>one_each P L\<close>: the model returned one
  prediction for every sample of every batch. \<open>the_count\<close>: the value of
  \<open>(preds == y).sum()\<close> where it does not raise.
\<close>

definition samples :: "nat list list \<Rightarrow> nat list list \<Rightarrow> (nat \<times> nat) list" where
  "samples P L = concat (map2 zip P L)"

definition one_each :: "nat list list \<Rightarrow> nat list list \<Rightarrow> bool" where
  "one_each P L = list_all2 (\<lambda>preds y. length preds = length y) P L"

definition the_count :: "nat list \<Rightarrow> nat list \<Rightarrow> int" where
  "the_count preds y = (case eq_sum preds y of Inl e \<Rightarrow> 0 | Inr k \<Rightarrow> k)"

section \<open>The cells of the notebook: which optimizer trains which model\<close>

text \<open>
  The cells construct modules and optimizers, bind them to global names, and train.
  Which object a name refers to when a cell runs decides whose parameters an
  optimizer updates, so the objects live in a heap (a reference is an index) and the
  globals hold references. An optimizer records the module whose \<open>parameters()\<close> it was
  given. \<open>history\<close> records, in order, what happens to parameters: a module is
  constructed (its parameters are initialised), deep-copied, re-initialised by
  \<open>apply(reset)\<close>, or trained by a run of the training loop with an optimizer.
\<close>

datatype opt_kind = Adam | RMSprop

datatype obj =
    Sequential "layer list"
  | CrossEntropyLoss
  | Optimizer opt_kind nat string
  \<comment> \<open>\<open>Optimizer kind m lr\<close> is \<open>optim.kind(m.parameters(), lr=lr)\<close>\<close>

datatype life = Constructed nat | Copied nat nat | Reset nat | Trained nat nat
  \<comment> \<open>\<open>Copied m src\<close>: \<open>m\<close> is the deep copy of \<open>src\<close>; \<open>Trained m opt\<close>: a training run on the
      model \<open>m\<close> with the optimizer \<open>opt\<close>\<close>

record notebook =
  heap :: "obj list"
  v_simple_model :: "nat option"
  v_fixed_model_base :: "nat option"
  v_fixed_model :: "nat option"
  v_fixed_model_gpu :: "nat option"
  v_model :: "nat option"
  v_best_model :: "nat option"
  v_loss_fn :: "nat option"
  v_optimizer :: "nat option"
  history :: "life list"

definition fresh :: notebook where
  "fresh =
     \<lparr>heap = [], v_simple_model = None, v_fixed_model_base = None, v_fixed_model = None,
      v_fixed_model_gpu = None, v_model = None, v_best_model = None, v_loss_fn = None,
      v_optimizer = None, history = []\<rparr>"

definition alloc :: "obj \<Rightarrow> (notebook, nat) action" where
  "alloc ob nb = (Inr (length (heap nb)), nb\<lparr>heap := heap nb @ [ob]\<rparr>, [])"

definition record_life :: "life \<Rightarrow> (notebook, unit) action" where
  "record_life ev nb = (Inr (), nb\<lparr>history := history nb @ [ev]\<rparr>, [])"

definition global :: "(notebook \<Rightarrow> nat option) \<Rightarrow> (notebook, nat) action" where
  \<comment> \<open>reading a global name\<close>
  "global var nb = (case var nb of None \<Rightarrow> raise NameError nb | Some r \<Rightarrow> ret r nb)"

definition assign ::
  "((nat option \<Rightarrow> nat option) \<Rightarrow> notebook \<Rightarrow> notebook) \<Rightarrow> nat \<Rightarrow> (notebook, unit) action" where
  \<comment> \<open>binding a global name\<close>
  "assign var_update r nb = (Inr (), var_update (\<lambda>old. Some r) nb, [])"

definition nn_Sequential :: "layer list \<Rightarrow> (notebook, nat) action" where
  "nn_Sequential layers =
     bindA (alloc (Sequential layers)) (\<lambda>m.
     bindA (record_life (Constructed m)) (\<lambda>u. ret m))"

definition deepcopy :: "nat \<Rightarrow> (notebook, nat) action" where
  "deepcopy r nb =
     (if r < length (heap nb)
      then bindA (alloc (heap nb ! r)) (\<lambda>m. bindA (record_life (Copied m r)) (\<lambda>u. ret m)) nb
      else raise (FrameworkError ''dangling reference'') nb)"

definition optim :: "opt_kind \<Rightarrow> (notebook \<Rightarrow> nat option) \<Rightarrow> string \<Rightarrow> (notebook, nat) action" where
  \<comment> \<open>\<open>optim.kind(var.parameters(), lr=lr)\<close>\<close>
  "optim kind var lr = bindA (global var) (\<lambda>m. alloc (Optimizer kind m lr))"

text \<open>
  \<^verbatim>\<open>
  def reset(m):
      if hasattr(m, 'reset_parameters'):
          m.reset_parameters()
  \<close>
  \<open>model.apply(reset)\<close> calls \<open>reset\<close> on every layer of the model. The layers that have
  parameters (\<open>Conv2d\<close>, \<open>BatchNorm2d\<close>, \<open>Linear\<close>) are the ones that have
  \<open>reset_parameters\<close>, which draws their parameters anew.
\<close>

fun has_reset_parameters :: "layer \<Rightarrow> bool" where
  "has_reset_parameters (Conv2d cin cout k s p) = True"
| "has_reset_parameters (BatchNorm2d c) = True"
| "has_reset_parameters (Linear fin fout) = True"
| "has_reset_parameters ReLU = False"
| "has_reset_parameters (MaxPool2d k s) = False"
| "has_reset_parameters Flatten = False"

definition apply_reset :: "nat \<Rightarrow> (notebook, unit) action" where
  "apply_reset r nb =
     (case (if r < length (heap nb) then Some (heap nb ! r) else None) of
        Some (Sequential layers) \<Rightarrow>
          (if list_ex has_reset_parameters layers then record_life (Reset r) nb else ret () nb)
      | _ \<Rightarrow> raise (FrameworkError ''not a module'') nb)"

text \<open>
  A training run: the loop of the cell that trains in place,
  \<open>for t, (x, y) in enumerate(loader_train): ...\<close>, or a call
  \<open>train(model, loss_fn, optimizer, num_epochs=1)\<close>. Both read the three globals when
  they run and step the optimizer once for every batch; here only the objects used
  are recorded. The calls of \<open>check_accuracy\<close> construct nothing, bind no name and step
  no optimizer: they leave this state as it is and are not written out in the cells
  below.
\<close>

definition training_run ::
  "(notebook \<Rightarrow> nat option) \<Rightarrow> (notebook \<Rightarrow> nat option) \<Rightarrow> (notebook \<Rightarrow> nat option)
    \<Rightarrow> (notebook, unit) action" where
  "training_run model_var loss_var optimizer_var =
     bindA (global model_var) (\<lambda>m.
     bindA (global loss_var) (\<lambda>l.
     bindA (global optimizer_var) (\<lambda>opt. record_life (Trained m opt))))"

text \<open>
  The cells that construct, copy, reset or train, in the order of the notebook (which
  is the order of their execution counts). The cells between them only run forward
  passes and timings.
  \<^verbatim>\<open>
  simple_model = nn.Sequential(...)
  simple_model.type(dtype)
  loss_fn = nn.CrossEntropyLoss().type(dtype)
  optimizer = optim.Adam(simple_model.parameters(), lr=1e-2)
  \<close>
\<close>

definition cell_simple_model :: "(notebook, unit) action" where
  "cell_simple_model =
     bindA (nn_Sequential simple_model) (\<lambda>m.
     bindA (assign v_simple_model_update m) (\<lambda>u.
     bindA (alloc CrossEntropyLoss) (\<lambda>l.
     bindA (assign v_loss_fn_update l) (\<lambda>u.
     bindA (optim Adam v_simple_model ''1e-2'') (\<lambda>opt.
     assign v_optimizer_update opt)))))"

text \<open>
  \<^verbatim>\<open>
  fixed_model_base = nn.Sequential(...)
  fixed_model = fixed_model_base.type(dtype)
  loss_fn = nn.CrossEntropyLoss().type(dtype)
  optimizer = optim.RMSprop(simple_model.parameters(), lr=1e-2)
  \<close>
  \<open>type\<close> converts the module in place and returns it, so \<open>fixed_model\<close> is the object
  \<open>fixed_model_base\<close>. The optimizer of this cell is over the parameters of
  \<open>simple_model\<close>.
\<close>

definition cell_fixed_model :: "(notebook, unit) action" where
  "cell_fixed_model =
     bindA (nn_Sequential fixed_model_base) (\<lambda>m.
     bindA (assign v_fixed_model_base_update m) (\<lambda>u.
     bindA (global v_fixed_model_base) (\<lambda>m.
     bindA (assign v_fixed_model_update m) (\<lambda>u.
     bindA (alloc CrossEntropyLoss) (\<lambda>l.
     bindA (assign v_loss_fn_update l) (\<lambda>u.
     bindA (optim RMSprop v_simple_model ''1e-2'') (\<lambda>opt.
     assign v_optimizer_update opt)))))))"

text \<open>\<^verbatim>\<open>fixed_model_gpu = copy.deepcopy(fixed_model_base).type(gpu_dtype)\<close>\<close>

definition cell_gpu_copy :: "(notebook, unit) action" where
  "cell_gpu_copy =
     bindA (global v_fixed_model_base) (\<lambda>b.
     bindA (deepcopy b) (\<lambda>m.
     assign v_fixed_model_gpu_update m))"

text \<open>
  \<^verbatim>\<open>
  loss_fn = nn.CrossEntropyLoss()
  optimizer = optim.RMSprop(fixed_model_gpu.parameters(), lr=1e-3)
  \<close>
\<close>

definition cell_rmsprop :: "(notebook, unit) action" where
  "cell_rmsprop =
     bindA (alloc CrossEntropyLoss) (\<lambda>l.
     bindA (assign v_loss_fn_update l) (\<lambda>u.
     bindA (optim RMSprop v_fixed_model_gpu ''1e-3'') (\<lambda>opt.
     assign v_optimizer_update opt)))"

text \<open>
  \<^verbatim>\<open>
  fixed_model_gpu.train()
  for t, (x, y) in enumerate(loader_train):
      ...
      scores = fixed_model_gpu(x_var)
      loss = loss_fn(scores, y_var)
      ...
      optimizer.zero_grad()
      loss.backward()
      optimizer.step()
  \<close>
\<close>

definition cell_training_loop :: "(notebook, unit) action" where
  "cell_training_loop = training_run v_fixed_model_gpu v_loss_fn v_optimizer"

text \<open>
  \<^verbatim>\<open>
  torch.cuda.random.manual_seed(12345)
  fixed_model_gpu.apply(reset)
  train(fixed_model_gpu, loss_fn, optimizer, num_epochs=1)
  check_accuracy(fixed_model_gpu, loader_val)
  \<close>
\<close>

definition cell_train_fixed :: "(notebook, unit) action" where
  "cell_train_fixed =
     bindA (global v_fixed_model_gpu) (\<lambda>m.
     bindA (apply_reset m) (\<lambda>u.
     training_run v_fixed_model_gpu v_loss_fn v_optimizer))"

text \<open>
  \<^verbatim>\<open>
  model = nn.Sequential(...)
  model = model.type(gpu_dtype)
  loss_fn = nn.CrossEntropyLoss().type(gpu_dtype)
  optimizer = optim.Adam(params=model.parameters(), lr=5e-4)
  train(model, loss_fn, optimizer, num_epochs=1)
  check_accuracy(model, loader_val)
  \<close>
\<close>

definition cell_train_great :: "(notebook, unit) action" where
  "cell_train_great =
     bindA (nn_Sequential best_model_layers) (\<lambda>m.
     bindA (assign v_model_update m) (\<lambda>u.
     bindA (global v_model) (\<lambda>m.
     bindA (assign v_model_update m) (\<lambda>u.
     bindA (alloc CrossEntropyLoss) (\<lambda>l.
     bindA (assign v_loss_fn_update l) (\<lambda>u.
     bindA (optim Adam v_model ''5e-4'') (\<lambda>opt.
     bindA (assign v_optimizer_update opt) (\<lambda>u.
     training_run v_model v_loss_fn v_optimizer))))))))"

text \<open>
  \<^verbatim>\<open>
  best_model = model
  check_accuracy(best_model, loader_test)
  \<close>
\<close>

definition cell_test :: "(notebook, unit) action" where
  "cell_test = bindA (global v_model) (\<lambda>m. assign v_best_model_update m)"

definition run_notebook :: "(notebook, unit) action" where
  "run_notebook =
     for_in (\<lambda>cell. cell)
       [cell_simple_model, cell_fixed_model, cell_gpu_copy, cell_rmsprop,
        cell_training_loop, cell_train_fixed, cell_train_great, cell_test]"

definition after_all_cells :: notebook where
  "after_all_cells = fst (snd (run_notebook fresh))"

fun initialises :: "nat \<Rightarrow> life \<Rightarrow> bool" where
  \<comment> \<open>the event gives the parameters of the module \<open>r\<close> their initial values\<close>
  "initialises r (Constructed m) = (m = r)"
| "initialises r (Copied m src) = (m = r)"
| "initialises r (Reset m) = (m = r)"
| "initialises r (Trained m opt) = False"

fun built_for :: "obj list \<Rightarrow> life \<Rightarrow> bool" where
  \<comment> \<open>a training run uses an optimizer constructed over the parameters of the model it trains\<close>
  "built_for h (Trained m opt) =
     (opt < length h \<and> (case h ! opt of Optimizer kind owner lr \<Rightarrow> owner = m | _ \<Rightarrow> False))"
| "built_for h ev = True"

section \<open>A small framework to run the helpers on\<close>

text \<open>
  For the examples: every module has one integer parameter, the world maps a module
  reference to it. An image is an integer, the score of an image is the image plus the
  parameter, the predicted class is the score modulo 10. The optimizer adds one to the
  parameter of its module at every step; floats are integers in units of 1/10000.
  \<open>broken_module\<close> raises in its forward pass.
\<close>

type_synonym toy_world = "nat \<Rightarrow> int"

definition toy_env :: "(toy_world, int list, int list, int) env" where
  "toy_env =
     \<lparr>Variable = (\<lambda>volatile x w. (Inr x, w)),
      LongVariable = (\<lambda>y w. (Inr y, w)),
      max1 = (\<lambda>s w. (Inr (map (\<lambda>v. nat (v mod 10)) s), w)),
      float_div = (\<lambda>a b. (10000 * a) div b),
      float_mul = (\<lambda>a f. a * f),
      format_f = (\<lambda>n v. show_int v)\<rparr>"

definition toy_module :: "nat \<Rightarrow> (toy_world, int list, int list) module" where
  "toy_module r =
     \<lparr>m_train = (\<lambda>w. (Inr (), w)),
      m_eval = (\<lambda>w. (Inr (), w)),
      m_call = (\<lambda>x w. (Inr (map (\<lambda>img. img + w r) x), w))\<rparr>"

definition broken_module :: "(toy_world, int list, int list) module" where
  "broken_module =
     \<lparr>m_train = (\<lambda>w. (Inr (), w)),
      m_eval = (\<lambda>w. (Inr (), w)),
      m_call = (\<lambda>x w. (Inl (FrameworkError ''size mismatch''), w))\<rparr>"

definition toy_loss_fn :: "int list \<Rightarrow> nat list \<Rightarrow> (toy_world, (toy_world, int) loss) meth" where
  "toy_loss_fn s y w =
     (Inr \<lparr>item = (\<lambda>w. (Inr (sum_list s), w)), backward = (\<lambda>w. (Inr (), w))\<rparr>, w)"

definition toy_optimizer :: "nat \<Rightarrow> toy_world optimizer" where
  "toy_optimizer r =
     \<lparr>zero_grad = (\<lambda>w. (Inr (), w)), step = (\<lambda>w. (Inr (), w(r := w r + 1)))\<rparr>"

definition toy_batches :: "nat \<Rightarrow> (exn + int list \<times> nat list) list" where
  "toy_batches n = map (\<lambda>i. Inr ([int i, 3], [i mod 10, 4])) [0..<n]"

definition toy_start :: toy_world where
  "toy_start = (\<lambda>r. 0)"

section \<open>The samplers\<close>

lemma range2_map: "range2 a (a + int n) = map (\<lambda>i. a + int i) [0..<n]"
proof (induction n)
  case 0
  then show ?case by (simp add: range2_def)
next
  case (Suc n)
  have "[a..a + int (Suc n) - 1] = [a..a + int n - 1] @ [a + int n]"
    using upto_rec2 [of a "a + int n"] by (simp add: add.commute)
  with Suc show ?case by (simp add: range2_def)
qed

lemma range2_length: "length (range2 a b) = nat (b - a)"
  by (simp add: range2_def)

lemma range2_set: "set (range2 a b) = {a..<b}"
  by (auto simp: range2_def)

text \<open>
  C8. For a sampler with a non-negative \<open>num_samples\<close>, \<open>__iter__\<close> yields exactly the
  \<open>num_samples\<close> consecutive indices \<open>start, start + 1, ..., start + num_samples - 1\<close>, and
  \<open>__len__\<close> returns \<open>num_samples\<close>, the number of indices yielded. The training sampler
  \<open>ChunkSampler(49000, 0)\<close> and the validation sampler \<open>ChunkSampler(1000, 49000)\<close> select
  disjoint sets of indices, and together exactly \<open>0, ..., 49999\<close>.
\<close>

theorem ChunkSampler_consecutive:
  "(0 \<le> n \<longrightarrow>
      ChunkSampler_iter (ChunkSampler n s) = map (\<lambda>i. s + int i) [0..<nat n]
      \<and> int (length (ChunkSampler_iter (ChunkSampler n s))) = ChunkSampler_len (ChunkSampler n s))
   \<and> ChunkSampler_len (ChunkSampler n s) = n
   \<and> set (ChunkSampler_iter (ChunkSampler NUM_TRAIN 0))
       \<inter> set (ChunkSampler_iter (ChunkSampler NUM_VAL NUM_TRAIN)) = {}
   \<and> set (ChunkSampler_iter (ChunkSampler NUM_TRAIN 0))
       \<union> set (ChunkSampler_iter (ChunkSampler NUM_VAL NUM_TRAIN)) = {0..49999}"
proof -
  have iter: "ChunkSampler_iter (ChunkSampler n s) = map (\<lambda>i. s + int i) [0..<nat n]"
    if "0 \<le> n"
    using that range2_map [of s "nat n"] by simp
  have len: "int (length (ChunkSampler_iter (ChunkSampler n s))) = n" if "0 \<le> n"
    using that by (simp add: range2_length)
  have disj: "set (ChunkSampler_iter (ChunkSampler NUM_TRAIN 0))
       \<inter> set (ChunkSampler_iter (ChunkSampler NUM_VAL NUM_TRAIN)) = {}"
    by (auto simp: range2_set NUM_TRAIN_def NUM_VAL_def)
  have un: "set (ChunkSampler_iter (ChunkSampler NUM_TRAIN 0))
       \<union> set (ChunkSampler_iter (ChunkSampler NUM_VAL NUM_TRAIN)) = {0..49999}"
    by (auto simp: range2_set NUM_TRAIN_def NUM_VAL_def)
  show ?thesis using iter len disj un by simp
qed

theorem ChunkSampler_consecutive_witness:
  "ChunkSampler_iter (ChunkSampler 3 5) = [5, 6, 7]
   \<and> int (length (ChunkSampler_iter (ChunkSampler 3 5))) = ChunkSampler_len (ChunkSampler 3 5)
   \<and> ChunkSampler_len (ChunkSampler 3 5) = 3"
proof -
  have "map (\<lambda>i. 5 + int i) [0..<nat 3] = [5, 6, 7]"
    by (simp add: upt_rec)
  then show ?thesis
    using ChunkSampler_consecutive [of 3 5] by simp
qed

text \<open>
  C3 (as the code has it). The claim that the training sampler yields a shuffled order
  fails: it yields \<open>0, 1, ..., 48999\<close>, in this order.
\<close>

lemma train_indices: "range2 0 (0 + NUM_TRAIN) = [0..48999]"
proof -
  have "0 + NUM_TRAIN - 1 = 48999" by (simp add: NUM_TRAIN_def)
  then show ?thesis unfolding range2_def by (rule arg_cong)
qed

theorem training_sampler_not_shuffled:
  "ChunkSampler_iter (ChunkSampler NUM_TRAIN 0) = [0..48999]"
  unfolding ChunkSampler_iter.simps by (rule train_indices)

text \<open>
  C3, amended. The training loader is given the sampler \<open>ChunkSampler(49000, 0)\<close>, which
  yields the indices \<open>0, 1, ..., 48999\<close> in this fixed order; every \<open>ChunkSampler\<close> yields
  its indices in strictly increasing order, each the successor of the one before, and
  the same list at every iteration (\<open>__iter__\<close> reads nothing but the two fields).
\<close>

theorem training_sampler_sequential:
  "sampler (loader_train ys) = Some (ChunkSampler NUM_TRAIN 0)
   \<and> ChunkSampler_iter (ChunkSampler NUM_TRAIN 0) = [0..48999]
   \<and> sorted_wrt (<) (ChunkSampler_iter (ChunkSampler n s))
   \<and> successively (\<lambda>a b. b = a + 1) (ChunkSampler_iter (ChunkSampler n s))"
proof -
  have succ: "successively (\<lambda>a b. b = a + 1) (range2 a b)" for a b
    unfolding successively_conv_nth by (simp add: range2_def)
  have srt: "sorted_wrt (<) (range2 a b)" for a b
    by (simp add: range2_def)
  have smp: "sampler (loader_train ys) = Some (ChunkSampler NUM_TRAIN 0)"
    by (simp add: loader_train_def)
  have idx: "ChunkSampler_iter (ChunkSampler NUM_TRAIN 0) = [0..48999]"
    unfolding ChunkSampler_iter.simps by (rule train_indices)
  have "sorted_wrt (<) (ChunkSampler_iter (ChunkSampler n s))
      \<and> successively (\<lambda>a b. b = a + 1) (ChunkSampler_iter (ChunkSampler n s))"
    unfolding ChunkSampler_iter.simps using succ srt by blast
  with smp idx show ?thesis by blast
qed

section \<open>Flatten\<close>

declare chunks.simps [simp del]

lemma infer_size_flatten:
  "0 < N \<Longrightarrow> infer_size [int N, - 1] (N * M) = Inr [N, M]"
  by (simp add: infer_size_def)

lemma contiguous4:
  "contiguous_from 1 [(W, s3), (H, s2), (C, s1), (N, s0)] \<longleftrightarrow>
     (W \<noteq> 1 \<longrightarrow> s3 = 1) \<and> (H \<noteq> 1 \<longrightarrow> s2 = W) \<and> (C \<noteq> 1 \<longrightarrow> s1 = W * H) \<and> (N \<noteq> 1 \<longrightarrow> s0 = W * H * C)"
  by auto

lemma chunks_continue:
  "\<not> (d1 \<noteq> 1 \<and> s1 \<noteq> tn * d * base) \<Longrightarrow>
   chunks ((d, s) # (d1, s1) # old) base tn vw acc = chunks ((d1, s1) # old) base (tn * d) vw acc"
  by (subst chunks.simps(2)) (auto simp: Let_def)

lemma chunks_break:
  "d1 \<noteq> 1 \<Longrightarrow> s1 \<noteq> tn * d * base \<Longrightarrow> fill base (tn * d) 1 vw acc = (tn * d, vw', acc') \<Longrightarrow>
   chunks ((d, s) # (d1, s1) # old) base tn vw acc = chunks ((d1, s1) # old) s1 1 vw' acc'"
  by (subst chunks.simps(2)) (simp add: Let_def)

lemma chunks_last:
  "fill base (tn * d) 1 vw acc = (tn * d, [], acc') \<Longrightarrow> chunks [(d, s)] base tn vw acc = Some acc'"
  by (subst chunks.simps(2)) (simp add: Let_def chunks.simps(1))

lemma fill_both:
  assumes "0 < M" "0 < N"
  shows "fill b (N * M) 1 [M, N] acc = (N * M, [], (M * b) # b # acc)"
proof -
  have 1: "1 < N * M \<or> M = 1"
  proof (cases "M = 1")
    case False
    with assms have "1 < M" by simp
    moreover have "M \<le> N * M" using assms by simp
    ultimately show ?thesis by linarith
  qed simp
  have 2: "M < N * M \<or> N = 1"
    using assms by (cases "N = 1") auto
  show ?thesis using 1 2 by (simp add: mult.commute)
qed

lemma fill_none: "d \<noteq> 1 \<Longrightarrow> fill b 1 1 (d # vw) acc = (1, d # vw, acc)"
  by simp

lemma fill_unit: "d \<noteq> 1 \<Longrightarrow> fill b 1 1 (1 # d # vw) acc = (1, d # vw, b # acc)"
  by simp

lemma fill_units: "fill b 1 1 [1, 1] acc = (1, [], [b, b] @ acc)"
  by simp

lemma fill_one: "0 < N \<Longrightarrow> fill b N 1 [N] acc = (N, [], b # acc)"
  by (cases "N = 1") auto

lemma computeStride_flatten:
  assumes c: "contiguous_from 1 [(W, s3), (H, s2), (C, s1), (N, s0)]"
    and pos: "0 < N" "0 < C" "0 < H" "0 < W"
  shows "\<exists>t0 t1. computeStride [N, C, H, W] [s0, s1, s2, s3] [N, C * H * W] = Some [t0, t1]
    \<and> (N \<noteq> 1 \<longrightarrow> t0 = C * H * W) \<and> (C * H * W \<noteq> 1 \<longrightarrow> t1 = 1)"
proof -
  from c have c3: "W \<noteq> 1 \<longrightarrow> s3 = 1" and c2: "H \<noteq> 1 \<longrightarrow> s2 = W"
    and c1: "C \<noteq> 1 \<longrightarrow> s1 = W * H" and c0: "N \<noteq> 1 \<longrightarrow> s0 = W * H * C"
    unfolding contiguous4 by simp_all
  let ?M = "C * H * W"
  have M: "0 < ?M" using pos by simp
  have cs: "computeStride [N, C, H, W] [s0, s1, s2, s3] [N, ?M]
      = chunks [(W, s3), (H, s2), (C, s1), (N, s0)] s3 1 [?M, N] []"
    using pos by (simp add: computeStride_def)
  show ?thesis
  proof (cases "s3 = 1")
    case True
    have "chunks [(W, s3), (H, s2), (C, s1), (N, s0)] s3 1 [?M, N] []
        = chunks [(H, s2), (C, s1), (N, s0)] s3 (1 * W) [?M, N] []"
      using c2 True by (intro chunks_continue) auto
    also have "\<dots> = chunks [(C, s1), (N, s0)] s3 (1 * W * H) [?M, N] []"
      using c1 True by (intro chunks_continue) auto
    also have "\<dots> = chunks [(N, s0)] s3 (1 * W * H * C) [?M, N] []"
      using c0 True by (intro chunks_continue) auto
    also have "\<dots> = Some [?M * s3, s3]"
    proof (rule chunks_last)
      have e: "1 * W * H * C * N = N * ?M" by (simp add: ac_simps)
      show "fill s3 (1 * W * H * C * N) 1 [?M, N] [] = (1 * W * H * C * N, [], [?M * s3, s3])"
        unfolding e by (rule fill_both [OF M pos(1)])
    qed
    finally show ?thesis using cs True by simp
  next
    case False
    with c3 have W: "W = 1" by auto
    consider (h) "H \<noteq> 1" | (c) "H = 1" "C \<noteq> 1" | (n) "H = 1" "C = 1" "N \<noteq> 1"
      | (u) "H = 1" "C = 1" "N = 1" by blast
    then show ?thesis
    proof cases
      case h
      with c2 W have s2: "s2 = 1" by simp
      have M1: "?M \<noteq> 1" using h by simp
      have "chunks [(W, s3), (H, s2), (C, s1), (N, s0)] s3 1 [?M, N] []
          = chunks [(H, s2), (C, s1), (N, s0)] s2 1 [?M, N] []"
        using h False W s2 fill_none [OF M1, of s3 "[N]" "[]"] by (intro chunks_break) auto
      also have "\<dots> = chunks [(C, s1), (N, s0)] s2 (1 * H) [?M, N] []"
        using c1 W s2 by (intro chunks_continue) auto
      also have "\<dots> = chunks [(N, s0)] s2 (1 * H * C) [?M, N] []"
        using c0 W s2 by (intro chunks_continue) auto
      also have "\<dots> = Some [?M * s2, s2]"
      proof (rule chunks_last)
        have e: "1 * H * C * N = N * ?M" using W by (simp add: ac_simps)
        show "fill s2 (1 * H * C * N) 1 [?M, N] [] = (1 * H * C * N, [], [?M * s2, s2])"
          unfolding e by (rule fill_both [OF M pos(1)])
      qed
      finally show ?thesis using cs s2 by simp
    next
      case c
      with c1 W have s1: "s1 = 1" by simp
      have M1: "?M \<noteq> 1" using c by simp
      have "chunks [(W, s3), (H, s2), (C, s1), (N, s0)] s3 1 [?M, N] []
          = chunks [(H, s2), (C, s1), (N, s0)] s3 (1 * W) [?M, N] []"
        using c by (intro chunks_continue) auto
      also have "\<dots> = chunks [(C, s1), (N, s0)] s1 1 [?M, N] []"
        using c False W s1 fill_none [OF M1, of s3 "[N]" "[]"] by (intro chunks_break) auto
      also have "\<dots> = chunks [(N, s0)] s1 (1 * C) [?M, N] []"
        using c0 W c s1 by (intro chunks_continue) auto
      also have "\<dots> = Some [?M * s1, s1]"
      proof (rule chunks_last)
        have e: "1 * C * N = N * ?M" using W c by (simp add: ac_simps)
        show "fill s1 (1 * C * N) 1 [?M, N] [] = (1 * C * N, [], [?M * s1, s1])"
          unfolding e by (rule fill_both [OF M pos(1)])
      qed
      finally show ?thesis using cs s1 by simp
    next
      case n
      with c0 W have s0: "s0 = 1" by simp
      have M1: "?M = 1" using n W by simp
      have "chunks [(W, s3), (H, s2), (C, s1), (N, s0)] s3 1 [?M, N] []
          = chunks [(H, s2), (C, s1), (N, s0)] s3 (1 * W) [?M, N] []"
        using n by (intro chunks_continue) auto
      also have "\<dots> = chunks [(C, s1), (N, s0)] s3 (1 * W * H) [?M, N] []"
        using n by (intro chunks_continue) auto
      also have "\<dots> = chunks [(N, s0)] s0 1 [N] [s3]"
        using n False W s0 M1 fill_unit [OF n(3), of s3 "[]" "[]"] by (intro chunks_break) auto
      also have "\<dots> = Some [s0, s3]"
      proof (rule chunks_last)
        show "fill s0 (1 * N) 1 [N] [s3] = (1 * N, [], [s0, s3])"
          using fill_one [OF pos(1), of s0 "[s3]"] by simp
      qed
      finally show ?thesis using cs s0 M1 by simp
    next
      case u
      have M1: "?M = 1" using u W by simp
      have "chunks [(W, s3), (H, s2), (C, s1), (N, s0)] s3 1 [?M, N] []
          = chunks [(H, s2), (C, s1), (N, s0)] s3 (1 * W) [?M, N] []"
        using u by (intro chunks_continue) auto
      also have "\<dots> = chunks [(C, s1), (N, s0)] s3 (1 * W * H) [?M, N] []"
        using u by (intro chunks_continue) auto
      also have "\<dots> = chunks [(N, s0)] s3 (1 * W * H * C) [?M, N] []"
        using u by (intro chunks_continue) auto
      also have "\<dots> = Some [s3, s3]"
      proof (rule chunks_last)
        show "fill s3 (1 * W * H * C * N) 1 [?M, N] [] = (1 * W * H * C * N, [], [s3, s3])"
          using fill_units [of s3 "[]"] u W M1 by simp
      qed
      finally show ?thesis using cs u M1 by simp
    qed
  qed
qed


lemma flat_index_bound:
  fixes c h w :: nat
  assumes "c < C" "h < H" "w < W"
  shows "(c * H + h) * W + w < C * H * W"
proof -
  have "c * H + h < C * H"
  proof -
    have "c * H + h < c * H + H" using assms by simp
    also have "\<dots> = Suc c * H" by simp
    also have "\<dots> \<le> C * H" using assms by (intro mult_le_mono1) simp
    finally show ?thesis .
  qed
  then have "Suc (c * H + h) * W \<le> (C * H) * W"
    by (intro mult_le_mono1) simp
  moreover have "(c * H + h) * W + w < Suc (c * H + h) * W"
    using assms by simp
  ultimately show ?thesis by linarith
qed

lemma flat_offset:
  fixes n c h w :: nat
  assumes c: "contiguous_from 1 [(W, s3), (H, s2), (C, s1), (N, s0)]"
    and t: "N \<noteq> 1 \<longrightarrow> t0 = C * H * W" "C * H * W \<noteq> 1 \<longrightarrow> t1 = 1"
    and i: "n < N" "c < C" "h < H" "w < W"
  shows "n * t0 + ((c * H + h) * W + w) * t1 = n * s0 + c * s1 + h * s2 + w * s3"
proof -
  from c have c3: "W \<noteq> 1 \<longrightarrow> s3 = 1" and c2: "H \<noteq> 1 \<longrightarrow> s2 = W"
    and c1: "C \<noteq> 1 \<longrightarrow> s1 = W * H" and c0: "N \<noteq> 1 \<longrightarrow> s0 = W * H * C"
    unfolding contiguous4 by simp_all
  have n: "n * t0 = n * s0"
    using t(1) c0 i(1) by (cases "N = 1") (simp_all add: ac_simps)
  have w: "w * s3 = w" using c3 i(4) by (cases "W = 1") simp_all
  have h: "h * s2 = h * W" using c2 i(3) by (cases "H = 1") simp_all
  have cc: "c * s1 = c * H * W" using c1 i(2) by (cases "C = 1") (simp_all add: ac_simps)
  have j: "((c * H + h) * W + w) * t1 = c * H * W + h * W + w"
  proof (cases "C * H * W = 1")
    case True
    then have "C = 1" "H = 1" "W = 1" by simp_all
    with i show ?thesis by simp
  next
    case False
    with t(2) show ?thesis by (simp add: algebra_simps)
  qed
  show ?thesis unfolding n j w h cc by simp
qed

lemma Flatten_forward_contiguous:
  assumes wf: "wf_tensor x" and sh: "shape x = [N, C, H, W]" and ct: "is_contiguous x"
    and pos: "0 < N"
  shows "\<exists>y. Flatten_forward x = Inr y
    \<and> shape y = [N, C * H * W] \<and> storage y = storage x
    \<and> wf_tensor y \<and> is_contiguous y \<and> numel y = numel x
    \<and> (\<forall>n c h w. n < N \<and> c < C \<and> h < H \<and> w < W \<longrightarrow>
          (c * H + h) * W + w < C * H * W
          \<and> at y [n, (c * H + h) * W + w] = at x [n, c, h, w])"
proof -
  from wf sh have "length (stride x) = 4" by (simp add: wf_tensor_def)
  then obtain s0 s1 s2 s3 where st: "stride x = [s0, s1, s2, s3]"
    by (auto simp: length_Suc_conv numeral_eq_Suc)
  let ?M = "C * H * W"
  have nx: "numel x = N * ?M" using sh by (simp add: numel_def mult.assoc)
  have inf: "infer_size [int N, - 1] (numel x) = Inr [N, ?M]"
    unfolding nx using pos by (rule infer_size_flatten)
  show ?thesis
  proof (cases "?M = 0")
    case True
    have cs: "computeStride [N, C, H, W] [s0, s1, s2, s3] [N, ?M] = Some [1, 1]"
      using True by (simp add: computeStride_def)
    let ?y = "x\<lparr>shape := [N, ?M], stride := [1, 1]\<rparr>"
    have fwd: "Flatten_forward x = Inr ?y"
      using sh st inf cs by (simp add: Flatten_forward_def view_def)
    have none: "\<not> (c < C \<and> h < H \<and> w < W)" for c h w
      using True by auto
    show ?thesis
    proof (intro exI [of _ ?y] conjI allI impI)
      show "Flatten_forward x = Inr ?y" by (rule fwd)
      show "wf_tensor ?y" using True by (simp add: wf_tensor_def numel_def)
      show "is_contiguous ?y" using True by (simp add: is_contiguous_def numel_def)
      show "numel ?y = numel x" using nx by (simp add: numel_def)
    qed (use none in \<open>simp_all\<close>)
  next
    case False
    then have p: "0 < C" "0 < H" "0 < W" by simp_all
    from False pos have "numel x \<noteq> 0" unfolding nx by simp
    with ct sh st have c: "contiguous_from 1 [(W, s3), (H, s2), (C, s1), (N, s0)]"
      by (simp add: is_contiguous_def)
    from computeStride_flatten [OF c pos p] obtain t0 t1 where
      cs: "computeStride [N, C, H, W] [s0, s1, s2, s3] [N, ?M] = Some [t0, t1]" and
      t: "N \<noteq> 1 \<longrightarrow> t0 = ?M" "?M \<noteq> 1 \<longrightarrow> t1 = 1"
      by blast
    let ?y = "x\<lparr>shape := [N, ?M], stride := [t0, t1]\<rparr>"
    have fwd: "Flatten_forward x = Inr ?y"
      using sh st inf cs by (simp add: Flatten_forward_def view_def)
    have off: "offset ?y [n, (c * H + h) * W + w] = offset x [n, c, h, w]"
      if "n < N" "c < C" "h < H" "w < W" for n c h w
      using flat_offset [OF c t that] st by (simp add: offset_def)
    have top: "(N - 1) * t0 + (?M - 1) * t1
        = (N - 1) * s0 + (C - 1) * s1 + (H - 1) * s2 + (W - 1) * s3"
    proof -
      have "((C - 1) * H + (H - 1)) * W + (W - 1) = ?M - 1"
        using p by (cases C; cases H; cases W) (simp_all add: algebra_simps)
      with flat_offset [OF c t, of "N - 1" "C - 1" "H - 1" "W - 1"] pos p
      show ?thesis by simp
    qed
    show ?thesis
    proof (intro exI [of _ ?y] conjI allI impI)
      show "Flatten_forward x = Inr ?y" by (rule fwd)
      show "wf_tensor ?y"
        using wf sh st top by (simp add: wf_tensor_def numel_def add.assoc)
      show "is_contiguous ?y" using t by (auto simp: is_contiguous_def)
      show "numel ?y = numel x" using nx by (simp add: numel_def)
    next
      fix n c h w
      assume i: "n < N \<and> c < C \<and> h < H \<and> w < W"
      then show "(c * H + h) * W + w < C * H * W"
        by (intro flat_index_bound) simp_all
      from i show "at ?y [n, (c * H + h) * W + w] = at x [n, c, h, w]"
        using off [of n c h w] by (simp add: at_def)
    qed simp_all
  qed
qed




text \<open>
  The size rule of the \<open>Flatten\<close> layer is what \<open>Flatten_forward\<close> does to the size of a
  contiguous tensor, failures included.
\<close>

lemma Flatten_layer_size:
  assumes "wf_tensor x" and "is_contiguous x"
  shows "map_sum id shape (Flatten_forward x) = layer_size Flatten (shape x)"
proof (cases "\<exists>N C H W. shape x = [N, C, H, W]")
  case True
  then obtain N C H W where sh: "shape x = [N, C, H, W]" by blast
  show ?thesis
  proof (cases "N = 0")
    case True
    then show ?thesis
      using sh by (simp add: Flatten_forward_def view_def infer_size_def numel_def)
  next
    case False
    then have "0 < N" by simp
    from Flatten_forward_contiguous [OF assms(1) sh assms(2) this] obtain y where
      "Flatten_forward x = Inr y" "shape y = [N, C * H * W]" by blast
    then show ?thesis using sh False by simp
  qed
next
  case False
  then have "Flatten_forward x = Inl ValueError"
    by (auto simp: Flatten_forward_def split: list.splits)
  moreover from False have "layer_size Flatten (shape x) = Inl ValueError"
    by (cases "(Flatten, shape x)" rule: layer_size.cases) auto
  ultimately show ?thesis by simp
qed

section \<open>The sizes through the fixed model\<close>



lemma simple_model_sizes:
  "0 < N \<Longrightarrow>
   Sequential_sizes simple_model [N, 3, 32, 32] =
     Inr [[N, 32, 13, 13], [N, 32, 13, 13], [N, 5408], [N, 10]]"
  by (simp add: simple_model_def conv_out_def)

lemma best_model_sizes:
  "0 < N \<Longrightarrow>
   map_sum id last (Sequential_sizes best_model_layers [N, 3, 32, 32]) = Inr [N, 10]"
  by (simp add: best_model_layers_def conv_out_def)

section \<open>Sequencing, loops and traces\<close>

lemma bindA_Inr:
  "bindA m f w = (Inr b, w2, evs) \<longleftrightarrow>
     (\<exists>a w1 e1 e2. m w = (Inr a, w1, e1) \<and> f a w1 = (Inr b, w2, e2) \<and> evs = e1 @ e2)"
  by (auto simp: bindA_def split: sum.splits prod.splits)

lemma invoke_Inr: "invoke k f w = (Inr a, w', evs) \<longleftrightarrow> f w = (Inr a, w') \<and> evs = [Call k None]"
  by (auto simp: invoke_def split: sum.splits prod.splits)

lemma invoke_Inl:
  "invoke k f w = (Inl e, w', evs) \<longleftrightarrow> f w = (Inl e, w') \<and> evs = [Call k (Some e)]"
  by (auto simp: invoke_def split: sum.splits prod.splits)

lemma ret_eq: "ret a w = (r, w', evs) \<longleftrightarrow> r = Inr a \<and> w' = w \<and> evs = []"
  by (auto simp: ret_def)

lemma print_eq: "print s w = (r, w', evs) \<longleftrightarrow> r = Inr () \<and> w' = w \<and> evs = [Print s]"
  by (auto simp: print_def)

lemma calls_append: "calls (a @ b) = calls a @ calls b"
  by (simp add: calls_def)

lemma printed_append: "printed (a @ b) = printed a @ printed b"
  by (simp add: printed_def)

lemma train_batch_calls:
  assumes "train_batch E model loss_fn optimizer (t, b) w = (Inr u, w', evs)"
  shows "calls evs = iteration_calls t"
  using assms
  by (auto simp: train_batch_def bindA_Inr invoke_Inr ret_eq print_eq calls_def iteration_calls_def
      split: if_splits prod.splits)

lemma fold_in_calls:
  assumes body: "\<And>x acc w acc' w' evs. body x acc w = (Inr acc', w', evs) \<Longrightarrow> calls evs = g x"
  shows "fold_in body xs acc w = (Inr acc', w', evs) \<Longrightarrow> calls evs = concat (map g xs)"
proof (induction xs arbitrary: acc w evs)
  case Nil
  then show ?case by (simp add: ret_eq calls_def)
next
  case (Cons x xs)
  from Cons.prems obtain a w1 e1 e2 where
    1: "body x acc w = (Inr a, w1, e1)" and
    2: "fold_in body xs a w1 = (Inr acc', w', e2)" and
    3: "evs = e1 @ e2"
    by (auto simp: bindA_Inr)
  from body [OF 1] Cons.IH [OF 2] 3 show ?case
    by (simp add: calls_append)
qed

lemma for_in_calls:
  assumes body: "\<And>x w u w' evs. body x w = (Inr u, w', evs) \<Longrightarrow> calls evs = g x"
  shows "for_in body xs w = (Inr u, w', evs) \<Longrightarrow> calls evs = concat (map g xs)"
  unfolding for_in_def using body by (rule fold_in_calls)

lemma map_enumerate_fst: "map (\<lambda>(t, b). g t) (enumerate n xs) = map g [n..<n + length xs]"
  by (induction xs arbitrary: n) (simp_all add: upt_rec)

lemma train_epoch_calls:
  assumes "train_epoch E loader model loss_fn optimizer n epoch w = (Inr u, w', evs)"
  shows "calls evs = ModelTrain # concat (map iteration_calls [0..<length (yields loader)])"
proof -
  from assms obtain w1 e1 where
    1: "for_in (train_batch E model loss_fn optimizer) (enumerate 0 (yields loader)) w1 = (Inr u, w', e1)"
    and 2: "evs = [Print (epoch_line epoch n), Call ModelTrain None] @ e1"
    by (auto simp: train_epoch_def bindA_Inr invoke_Inr print_eq)
  have "calls e1 = concat (map (\<lambda>(t, b). iteration_calls t) (enumerate 0 (yields loader)))"
    using 1
  proof (rule for_in_calls [rotated])
    fix x w u w' evs
    assume "train_batch E model loss_fn optimizer x w = (Inr u, w', evs)"
    then show "calls evs = (case x of (t, b) \<Rightarrow> iteration_calls t)"
      by (cases x) (simp add: train_batch_calls)
  qed
  then show ?thesis
    using 2 by (simp add: calls_def map_enumerate_fst)
qed

lemma concat_map_const: "concat (map (\<lambda>x. ys) xs) = concat (replicate (length xs) ys)"
  by (induction xs) simp_all

lemma train_calls:
  assumes "train E loader model loss_fn optimizer n w = (Inr u, w', evs)"
  shows "calls evs =
    concat (replicate (nat n) (ModelTrain # concat (map iteration_calls [0..<length (yields loader)])))"
proof -
  have "calls evs = concat (map (\<lambda>epoch. ModelTrain # concat (map iteration_calls [0..<length (yields loader)])) (range2 0 n))"
    using assms unfolding train_def
    by (rule for_in_calls [rotated]) (rule train_epoch_calls)
  then show ?thesis
    by (simp add: concat_map_const range2_length)
qed

lemma for_in_Nil: "for_in body [] = ret ()"
  by (simp add: for_in_def)

lemma for_in_Cons: "for_in body (x # xs) = bindA (body x) (\<lambda>u. for_in body xs)"
proof -
  have "fold_in (\<lambda>x u. body x) xs = (\<lambda>u. fold_in (\<lambda>x u. body x) xs ())"
    by (rule ext) simp
  then show ?thesis by (simp add: for_in_def)
qed

lemma train_batch_iteration:
  assumes "train_batch E model loss_fn optimizer (t, b) w = (Inr u, w', evs)"
  shows "\<exists>x y v. b = Inr (x, y) \<and> iteration E model loss_fn optimizer t (x, y) w = Some (v, w')
    \<and> printed evs = progress_lines E t [v]"
  using assms
  by (auto simp: train_batch_def bindA_Inr invoke_Inr ret_eq print_eq printed_def
      iteration_def batch_loss_def read_loss_def gradient_step_def
      split: if_splits prod.splits)

lemma train_batches_iterations:
  "for_in (train_batch E model loss_fn optimizer) (enumerate k ys) w = (Inr u, w', evs)
   \<Longrightarrow> \<exists>bs vs. ys = map Inr bs \<and> iterations E model loss_fn optimizer k bs w = Some (vs, w')
        \<and> printed evs = progress_lines E k vs"
proof (induction ys arbitrary: k w evs)
  case Nil
  then show ?case by (simp add: for_in_Nil ret_eq printed_def)
next
  case (Cons y ys)
  from Cons.prems obtain u1 w1 e1 e2 where
    1: "train_batch E model loss_fn optimizer (k, y) w = (Inr u1, w1, e1)" and
    2: "for_in (train_batch E model loss_fn optimizer) (enumerate (Suc k) ys) w1 = (Inr u, w', e2)" and
    3: "evs = e1 @ e2"
    by (auto simp: for_in_Cons bindA_Inr)
  from train_batch_iteration [OF 1] obtain x l v where
    y: "y = Inr (x, l)" and
    it: "iteration E model loss_fn optimizer k (x, l) w = Some (v, w1)" and
    p1: "printed e1 = progress_lines E k [v]"
    by blast
  from Cons.IH [OF 2] obtain bs vs where
    ys: "ys = map Inr bs" and
    its: "iterations E model loss_fn optimizer (Suc k) bs w1 = Some (vs, w')" and
    p2: "printed e2 = progress_lines E (Suc k) vs"
    by blast
  have p: "printed evs = progress_lines E k (v # vs)"
    unfolding 3 printed_append p1 p2 by (cases v) simp_all
  show ?case
  proof (intro exI [of _ "(x, l) # bs"] exI [of _ "v # vs"] conjI)
    show "y # ys = map Inr ((x, l) # bs)" using y ys by simp
    show "iterations E model loss_fn optimizer k ((x, l) # bs) w = Some (v # vs, w')"
      using it its by simp
    show "printed evs = progress_lines E k (v # vs)" by (rule p)
  qed
qed

lemma train_epoch_iterations:
  assumes "train_epoch E loader model loss_fn optimizer n epoch w = (Inr u, w', evs)"
  shows "\<exists>bs w1 vs. yields loader = map Inr bs \<and> m_train model w = (Inr (), w1)
    \<and> iterations E model loss_fn optimizer 0 bs w1 = Some (vs, w')
    \<and> printed evs = epoch_line epoch n # progress_lines E 0 vs"
proof -
  from assms obtain w1 e1 where
    0: "m_train model w = (Inr (), w1)" and
    1: "for_in (train_batch E model loss_fn optimizer) (enumerate 0 (yields loader)) w1 = (Inr u, w', e1)"
    and 2: "evs = [Print (epoch_line epoch n), Call ModelTrain None] @ e1"
    by (auto simp: train_epoch_def bindA_Inr invoke_Inr print_eq)
  from train_batches_iterations [OF 1] obtain bs vs where
    "yields loader = map Inr bs" "iterations E model loss_fn optimizer 0 bs w1 = Some (vs, w')"
    "printed e1 = progress_lines E 0 vs"
    by blast
  with 0 2 show ?thesis by (auto simp: printed_def)
qed

lemma map_Inr_inject: "map Inr bs = map Inr bs' \<Longrightarrow> bs = bs'"
  by (simp add: inj_map_eq_map)

lemma train_epochs_iterations:
  "for_in (train_epoch E loader model loss_fn optimizer n) (map (\<lambda>i. e + int i) [0..<m]) w
     = (Inr u, w', evs)
   \<Longrightarrow> yields loader = map Inr bs
   \<Longrightarrow> \<exists>vss. epochs E model loss_fn optimizer m bs w = Some (vss, w')
        \<and> printed evs = epoch_lines E n e vss"
proof (induction m arbitrary: e w evs)
  case 0
  then show ?case by (simp add: for_in_Nil ret_eq printed_def)
next
  case (Suc m)
  have es: "map (\<lambda>i. e + int i) [0..<Suc m] = e # map (\<lambda>i. (e + 1) + int i) [0..<m]"
    by (simp add: map_upt_Suc del: upt_Suc) 
  from Suc.prems(1) obtain u1 w1 e1 e2 where
    1: "train_epoch E loader model loss_fn optimizer n e w = (Inr u1, w1, e1)" and
    2: "for_in (train_epoch E loader model loss_fn optimizer n) (map (\<lambda>i. (e + 1) + int i) [0..<m]) w1
          = (Inr u, w', e2)" and
    3: "evs = e1 @ e2"
    unfolding es by (auto simp: for_in_Cons bindA_Inr)
  from train_epoch_iterations [OF 1] obtain bs' wt vs where
    "yields loader = map Inr bs'" and
    t: "m_train model w = (Inr (), wt)" and
    it: "iterations E model loss_fn optimizer 0 bs' wt = Some (vs, w1)" and
    p1: "printed e1 = epoch_line e n # progress_lines E 0 vs"
    by blast
  with Suc.prems(2) have "bs' = bs" by (simp add: map_Inr_inject)
  with it have it: "iterations E model loss_fn optimizer 0 bs wt = Some (vs, w1)" by simp
  from Suc.IH [OF 2 Suc.prems(2)] obtain vss where
    ep: "epochs E model loss_fn optimizer m bs w1 = Some (vss, w')" and
    p2: "printed e2 = epoch_lines E n (e + 1) vss"
    by blast
  show ?case
  proof (intro exI [of _ "vs # vss"] conjI)
    show "epochs E model loss_fn optimizer (Suc m) bs w = Some (vs # vss, w')"
      using t it ep by simp
    show "printed evs = epoch_lines E n e (vs # vss)"
      unfolding 3 printed_append p1 p2 by simp
  qed
qed

lemma train_iterations:
  assumes "train E loader model loss_fn optimizer n w = (Inr u, w', evs)"
  shows "\<exists>bs vss. (0 < n \<longrightarrow> yields loader = map Inr bs)
    \<and> epochs E model loss_fn optimizer (nat n) bs w = Some (vss, w')
    \<and> printed evs = epoch_lines E n 0 vss"
proof (cases "0 < n")
  case False
  then have "range2 0 n = []" by (simp add: range2_def)
  with assms have "w' = w" "evs = []"
    by (simp_all add: train_def for_in_Nil ret_eq)
  with False show ?thesis by (simp add: printed_def)
next
  case True
  then have r: "range2 0 n = map (\<lambda>i. 0 + int i) [0..<nat n]"
    using range2_map [of 0 "nat n"] by simp
  from True obtain m where m: "nat n = Suc m" by (cases "nat n") simp_all
  have "\<exists>bs. yields loader = map Inr bs"
  proof -
    have "range2 0 n = 0 # map (\<lambda>i. 1 + int i) [0..<m]"
      unfolding r m by (simp add: map_upt_Suc del: upt_Suc)
    with assms obtain u1 w1 e1 where
      "train_epoch E loader model loss_fn optimizer n 0 w = (Inr u1, w1, e1)"
      by (auto simp: train_def for_in_Cons bindA_Inr)
    from train_epoch_iterations [OF this] show ?thesis by blast
  qed
  then obtain bs where bs: "yields loader = map Inr bs" ..
  from assms have "for_in (train_epoch E loader model loss_fn optimizer n)
      (map (\<lambda>i. 0 + int i) [0..<nat n]) w = (Inr u, w', evs)"
    unfolding train_def r .
  from train_epochs_iterations [OF this bs] bs show ?thesis by blast
qed

lemma bindA_returns:
  "m w = (Inr a, w1, e1) \<Longrightarrow> f a w1 = (Inr b, w2, e2) \<Longrightarrow> bindA m f w = (Inr b, w2, e1 @ e2)"
  by (simp add: bindA_def)

lemma invoke_returns: "f w = (Inr a, w1) \<Longrightarrow> invoke k f w = (Inr a, w1, [Call k None])"
  by (simp add: invoke_def)

lemma train_tail_returns:
  assumes "never_raises E model loss_fn optimizer" and "succeeds (backward l)"
  shows "\<exists>w' evs.
    bindA (invoke ZeroGrad (zero_grad optimizer)) (\<lambda>u.
    bindA (invoke Backward (backward l)) (\<lambda>u.
    invoke Step (step optimizer))) w = (Inr (), w', evs)"
proof -
  from assms(1) obtain w6 where 6: "zero_grad optimizer w = (Inr (), w6)"
    unfolding never_raises_def succeeds_def by (metis (full_types) old.unit.exhaust)
  from assms(2) obtain w7 where 7: "backward l w6 = (Inr (), w7)"
    unfolding succeeds_def by (metis (full_types) old.unit.exhaust)
  from assms(1) obtain w8 where 8: "step optimizer w7 = (Inr (), w8)"
    unfolding never_raises_def succeeds_def by (metis (full_types) old.unit.exhaust)
  show ?thesis
    using 6 7 8 by (simp add: bindA_def invoke_def)
qed

lemma train_batch_returns:
  assumes "never_raises E model loss_fn optimizer"
  shows "\<exists>w' evs. train_batch E model loss_fn optimizer (t, Inr (x, y)) w = (Inr (), w', evs)"
proof -
  from assms obtain xv w1 where 1: "Variable E False x w = (Inr xv, w1)"
    unfolding never_raises_def succeeds_def by blast
  from assms obtain yv w2 where 2: "LongVariable E y w1 = (Inr yv, w2)"
    unfolding never_raises_def succeeds_def by blast
  from assms obtain s w3 where 3: "m_call model xv w2 = (Inr s, w3)"
    unfolding never_raises_def succeeds_def by blast
  from assms obtain l w4 where 4: "loss_fn s yv w3 = (Inr l, w4)"
    and li: "succeeds (item l)" and lb: "succeeds (backward l)"
    unfolding never_raises_def by blast
  from li obtain v w5 where 5: "item l w4 = (Inr v, w5)"
    unfolding succeeds_def by blast
  show ?thesis
  proof (cases "(t + 1) mod print_every = 0")
    case True
    from train_tail_returns [OF assms lb, of w5] obtain w' evs where
      "bindA (invoke ZeroGrad (zero_grad optimizer)) (\<lambda>u.
       bindA (invoke Backward (backward l)) (\<lambda>u.
       invoke Step (step optimizer))) w5 = (Inr (), w', evs)"
      by blast
    with True 1 2 3 4 5 show ?thesis
      by (simp add: train_batch_def bindA_returns invoke_returns print_def
          bindA_def [of "invoke LoaderNext f" for f] bindA_def [of "print s" for s] invoke_def [of LoaderNext])
  next
    case False
    from train_tail_returns [OF assms lb, of w4] obtain w' evs where
      "bindA (invoke ZeroGrad (zero_grad optimizer)) (\<lambda>u.
       bindA (invoke Backward (backward l)) (\<lambda>u.
       invoke Step (step optimizer))) w4 = (Inr (), w', evs)"
      by blast
    with False 1 2 3 4 show ?thesis
      by (simp add: train_batch_def bindA_returns invoke_returns ret_def
          bindA_def [of "invoke LoaderNext f" for f] bindA_def [of "ret a" for a] invoke_def [of LoaderNext])
  qed
qed

lemma for_in_returns:
  assumes "\<And>x w. x \<in> set xs \<Longrightarrow> \<exists>w' evs. body x w = (Inr (), w', evs)"
  shows "\<exists>w' evs. for_in body xs w = (Inr (), w', evs)"
  using assms
proof (induction xs arbitrary: w)
  case Nil
  then show ?case by (simp add: for_in_Nil ret_def)
next
  case (Cons x xs)
  from Cons.prems [of x w] obtain w1 e1 where 1: "body x w = (Inr (), w1, e1)" by auto
  from Cons.IH [of w1] Cons.prems obtain w2 e2 where 2: "for_in body xs w1 = (Inr (), w2, e2)"
    by auto
  from 1 2 show ?case by (simp add: for_in_Cons bindA_def)
qed

lemma train_epoch_returns:
  assumes "never_raises E model loss_fn optimizer"
    and "\<forall>b \<in> set (yields loader). \<exists>x y. b = Inr (x, y)"
  shows "\<exists>w' evs. train_epoch E loader model loss_fn optimizer n epoch w = (Inr (), w', evs)"
proof -
  from assms(1) obtain w1 where 1: "m_train model w = (Inr (), w1)"
    unfolding never_raises_def succeeds_def by (metis old.unit.exhaust)
  have "\<exists>w' evs. for_in (train_batch E model loss_fn optimizer) (enumerate 0 (yields loader)) w1
      = (Inr (), w', evs)"
  proof (rule for_in_returns)
    fix p w
    assume "p \<in> set (enumerate 0 (yields loader))"
    then have "fst p < length (yields loader)" "yields loader ! fst p = snd p"
      by (auto simp: in_set_enumerate_eq)
    then have "snd p \<in> set (yields loader)"
      using nth_mem by metis
    with assms(2) obtain x y where "snd p = Inr (x, y)" by blast
    then have "p = (fst p, Inr (x, y))" by (cases p) simp
    then obtain t x y where "p = (t, Inr (x, y))" by blast
    then show "\<exists>w' evs. train_batch E model loss_fn optimizer p w = (Inr (), w', evs)"
      using train_batch_returns [OF assms(1)] by simp
  qed
  then obtain w' e2 where
    "for_in (train_batch E model loss_fn optimizer) (enumerate 0 (yields loader)) w1 = (Inr (), w', e2)"
    by blast
  with 1 show ?thesis
    by (simp add: train_epoch_def bindA_def invoke_def print_def)
qed

lemma train_returns:
  assumes "never_raises E model loss_fn optimizer"
    and "\<forall>b \<in> set (yields loader). \<exists>x y. b = Inr (x, y)"
  shows "\<exists>w' evs. train E loader model loss_fn optimizer n w = (Inr (), w', evs)"
  unfolding train_def
  by (rule for_in_returns) (rule train_epoch_returns [OF assms])

lemma check_batch_Inr:
  "check_batch E model b (c, n) w = (Inr r, w', evs) \<longleftrightarrow>
     (\<exists>x y xv w1 s w2 preds k.
        b = Inr (x, y) \<and> Variable E True x w = (Inr xv, w1) \<and> m_call model xv w1 = (Inr s, w2)
        \<and> max1 E s w2 = (Inr preds, w') \<and> eq_sum preds y = Inr k
        \<and> r = (c + k, n + int (length preds)) \<and> evs = batch_events)"
  by (auto simp: check_batch_def bindA_Inr invoke_Inr ret_eq batch_events_def split: prod.splits)

lemma check_loop:
  "fold_in (check_batch E model) ys (c, n) w = (Inr (c', n'), w', evs) \<Longrightarrow>
   \<exists>bs. ys = map Inr bs
     \<and> length (predictions E model bs w) = length bs
     \<and> c' = c + sum_list (map2 the_count (predictions E model bs w) (map snd bs))
     \<and> n' = n + int (length (concat (predictions E model bs w)))
     \<and> evs = concat (replicate (length bs) batch_events)"
proof (induction ys arbitrary: c n w evs)
  case Nil
  then show ?case by (simp add: ret_eq)
next
  case (Cons b ys)
  from Cons.prems obtain r w1 e1 e2 where
    1: "check_batch E model b (c, n) w = (Inr r, w1, e1)" and
    2: "fold_in (check_batch E model) ys r w1 = (Inr (c', n'), w', e2)" and
    3: "evs = e1 @ e2"
    by (auto simp: bindA_Inr)
  from 1 obtain x y xv wa s wb preds k where
    b: "b = Inr (x, y)" and
    calls: "Variable E True x w = (Inr xv, wa)" "m_call model xv wa = (Inr s, wb)"
      "max1 E s wb = (Inr preds, w1)" and
    k: "eq_sum preds y = Inr k" and
    r: "r = (c + k, n + int (length preds))" and
    e1: "e1 = batch_events"
    unfolding check_batch_Inr by blast
  from 2 r have "fold_in (check_batch E model) ys (c + k, n + int (length preds)) w1 = (Inr (c', n'), w', e2)"
    by simp
  from Cons.IH [OF this] obtain bs where
    ys: "ys = map Inr bs" and
    len: "length (predictions E model bs w1) = length bs" and
    c': "c' = c + k + sum_list (map2 the_count (predictions E model bs w1) (map snd bs))" and
    n': "n' = n + int (length preds) + int (length (concat (predictions E model bs w1)))" and
    e2: "e2 = concat (replicate (length bs) batch_events)"
    by blast
  have P: "predictions E model ((x, y) # bs) w = preds # predictions E model bs w1"
    using calls by simp
  show ?case
  proof (intro exI [of _ "(x, y) # bs"] conjI)
    show "b # ys = map Inr ((x, y) # bs)" using b ys by simp
    show "length (predictions E model ((x, y) # bs) w) = length ((x, y) # bs)"
      using P len by simp
    show "c' = c + sum_list (map2 the_count (predictions E model ((x, y) # bs) w) (map snd ((x, y) # bs)))"
      using P c' k by (simp add: the_count_def)
    show "n' = n + int (length (concat (predictions E model ((x, y) # bs) w)))"
      using P n' by simp
    show "evs = concat (replicate (length ((x, y) # bs)) batch_events)"
      using 3 e1 e2 by simp
  qed
qed

lemma eq_sum_same_length:
  "length preds = length y \<Longrightarrow> eq_sum preds y = Inr (int (length (filter (\<lambda>(p, l). p = l) (zip preds y))))"
  by (simp add: eq_sum_def)

lemma one_each_counts:
  "one_each P L \<Longrightarrow>
     sum_list (map2 the_count P L) = int (length (filter (\<lambda>(p, l). p = l) (samples P L)))
     \<and> length (concat P) = length (samples P L)
     \<and> length (samples P L) = length (concat L)"
  unfolding one_each_def
proof (induction P L rule: list_all2_induct)
  case Nil
  then show ?case by (simp add: samples_def)
next
  case (Cons p P y L)
  have s: "samples (p # P) (y # L) = zip p y @ samples P L"
    by (simp add: samples_def)
  show ?case
    unfolding s using Cons.IH Cons.hyps(1) by (simp add: the_count_def eq_sum_same_length)
qed

lemma if_print: "(if c then print a else print b) = print (if c then a else b)"
  by simp

lemma bindA_print:
  "bindA (print s) f w = (r, w', evs) \<longleftrightarrow> (\<exists>e2. f () w = (r, w', e2) \<and> evs = Print s # e2)"
  by (auto simp: bindA_def print_def split: prod.splits)

lemma check_accuracy_header:
  assumes "check_accuracy E model loader w = (r, w', evs)"
  shows "\<exists>rest. evs = Print (header_line loader) # rest"
  using assms unfolding check_accuracy_def if_print bindA_print header_line_def by blast

lemma true_div_Inr:
  "true_div E a b w = (Inr q, w', evs) \<longleftrightarrow> b \<noteq> 0 \<and> q = float_div E a b \<and> w' = w \<and> evs = []"
  by (auto simp: true_div_def raise_def ret_def)

lemma check_accuracy_normal:
  assumes "check_accuracy E model loader w = (Inr u, w', evs)"
  shows "\<exists>bs w1 nc ns.
     yields loader = map Inr bs \<and> m_eval model w = (Inr (), w1)
     \<and> length (predictions E model bs w1) = length bs
     \<and> nc = sum_list (map2 the_count (predictions E model bs w1) (map snd bs))
     \<and> ns = int (length (concat (predictions E model bs w1)))
     \<and> ns \<noteq> 0
     \<and> evs = [Print (header_line loader), Call ModelEval None]
           @ concat (replicate (length bs) batch_events)
           @ [Print (result_line E nc ns (float_div E nc ns))]"
proof -
  from assms obtain w1 nc ns w2 e2 where
    ev: "m_eval model w = (Inr (), w1)" and
    loop: "fold_in (check_batch E model) (yields loader) (0, 0) w1 = (Inr (nc, ns), w2, e2)" and
    ns: "ns \<noteq> 0" and
    evs: "evs = [Print (header_line loader), Call ModelEval None] @ e2
           @ [Print (result_line E nc ns (float_div E nc ns))]"
    unfolding check_accuracy_def if_print
    by (auto simp: bindA_Inr invoke_Inr print_eq true_div_Inr header_line_def split: prod.splits)
  from check_loop [OF loop] obtain bs where
    "yields loader = map Inr bs"
    "length (predictions E model bs w1) = length bs"
    "nc = sum_list (map2 the_count (predictions E model bs w1) (map snd bs))"
    "ns = int (length (concat (predictions E model bs w1)))"
    "e2 = concat (replicate (length bs) batch_events)"
    by auto
  with ev ns evs show ?thesis by blast
qed

lemma raises_append: "raises (a @ b) = raises a @ raises b"
  by (simp add: raises_def)

lemma propagates_ret: "propagates own (ret a)"
  by (simp add: propagates_def propagated_def ret_def raises_def)

lemma propagates_print: "propagates own (print s)"
  by (simp add: propagates_def propagated_def print_def raises_def)

lemma propagates_raise: "propagates True (raise ZeroDivisionError)"
  by (simp add: propagates_def propagated_def raise_def raises_def)

lemma propagates_invoke: "propagates own (invoke k f)"
  by (auto simp: propagates_def propagated_def invoke_def raises_def split: sum.splits prod.splits)

lemma propagates_bindA:
  assumes "propagates own m" and "\<And>a. propagates own (f a)"
  shows "propagates own (bindA m f)"
  unfolding propagates_def
proof (intro allI impI)
  fix w r w' evs
  assume run: "bindA m f w = (r, w', evs)"
  obtain r1 w1 e1 where m: "m w = (r1, w1, e1)" by (cases "m w") auto
  from assms(1) m have p1: "propagated own r1 e1" by (auto simp: propagates_def)
  show "propagated own r evs"
  proof (cases r1)
    case (Inl e)
    with run m have "r = Inl e" "evs = e1" by (auto simp: bindA_def)
    with p1 Inl show ?thesis by (simp add: propagated_def)
  next
    case (Inr a)
    obtain r2 w2 e2 where f: "f a w1 = (r2, w2, e2)" by (cases "f a w1") auto
    from assms(2) [of a] f have p2: "propagated own r2 e2" by (auto simp: propagates_def)
    from run m Inr f have r: "r = r2" "evs = e1 @ e2" by (auto simp: bindA_def)
    from p1 Inr have n1: "raises e1 = []" by (simp add: propagated_def)
    show ?thesis
    proof (cases r2)
      case (Inr b)
      with p2 n1 r show ?thesis by (simp add: propagated_def raises_append)
    next
      case (Inl e)
      with p2 consider
        (call) k pre where "e2 = pre @ [Call k (Some e)]" "raises pre = []"
        | (own) "own" "e = ZeroDivisionError" "raises e2 = []"
        by (auto simp: propagated_def)
      then show ?thesis
      proof cases
        case call
        then have "evs = (e1 @ pre) @ [Call k (Some e)]" "raises (e1 @ pre) = []"
          using r n1 by (simp_all add: raises_append)
        then show ?thesis using Inl r unfolding propagated_def by (simp del: append_assoc)
      next
        case own
        then show ?thesis using Inl r n1 by (simp add: propagated_def raises_append)
      qed
    qed
  qed
qed

lemma propagates_fold_in:
  assumes "\<And>x acc. propagates own (body x acc)"
  shows "propagates own (fold_in body xs acc)"
proof (induction xs arbitrary: acc)
  case Nil
  show ?case by (simp add: propagates_ret)
next
  case (Cons x xs)
  show ?case by (simp add: propagates_bindA assms Cons)
qed

lemma propagates_for_in:
  assumes "\<And>x. propagates own (body x)"
  shows "propagates own (for_in body xs)"
  unfolding for_in_def by (rule propagates_fold_in) (rule assms)

lemma propagates_train_batch: "propagates False (train_batch E model loss_fn optimizer p)"
  unfolding train_batch_def
  by (auto intro!: propagates_bindA propagates_invoke propagates_print propagates_ret
      split: prod.splits)

lemma propagates_train: "propagates False (train E loader model loss_fn optimizer n)"
  unfolding train_def train_epoch_def
  by (intro propagates_for_in propagates_bindA propagates_invoke propagates_print
      propagates_train_batch)

lemma propagates_check_batch: "propagates True (check_batch E model b acc)"
  unfolding check_batch_def
  by (auto intro!: propagates_bindA propagates_invoke propagates_print propagates_ret
      split: prod.splits)

lemma propagates_true_div: "propagates True (true_div E a b)"
  by (simp add: true_div_def propagates_raise propagates_ret)

lemma propagates_check_accuracy: "propagates True (check_accuracy E model loader)"
  unfolding check_accuracy_def if_print
  by (auto intro!: propagates_bindA propagates_invoke propagates_print propagates_fold_in
      propagates_check_batch propagates_true_div split: prod.splits)

lemma keepsA_ret: "keepsA P S (ret a)"
  by (simp add: keepsA_def ret_def)

lemma keepsA_print: "keepsA P S (print s)"
  by (simp add: keepsA_def print_def)

lemma keepsA_invoke:
  assumes "keeps P S' f" and "S' \<subseteq> S"
  shows "keepsA P S (invoke k f)"
  unfolding keepsA_def
proof (intro allI impI)
  fix w r w' evs m
  assume run: "invoke k f w = (r, w', evs)" and out: "m \<notin> S"
  obtain r1 w1 where f: "f w = (r1, w1)" by (cases "f w")
  with run have "w' = w1" by (cases r1) (simp_all add: invoke_def)
  moreover from assms out f have "P w1 m = P w m" unfolding keeps_def by blast
  ultimately show "P w' m = P w m" by simp
qed

lemma keepsA_bindA:
  assumes "keepsA P S m"
    and "\<And>a w w1 e1. m w = (Inr a, w1, e1) \<Longrightarrow> keepsA P S (f a)"
  shows "keepsA P S (bindA m f)"
  unfolding keepsA_def
proof (intro allI impI)
  fix w r w' evs m'
  assume run: "bindA m f w = (r, w', evs)" and out: "m' \<notin> S"
  obtain r1 w1 e1 where m: "m w = (r1, w1, e1)" by (cases "m w") auto
  from assms(1) m out have 1: "P w1 m' = P w m'" by (auto simp: keepsA_def)
  show "P w' m' = P w m'"
  proof (cases r1)
    case (Inl e)
    with run m have "w' = w1" by (simp add: bindA_def)
    with 1 show ?thesis by simp
  next
    case (Inr a)
    obtain r2 w2 e2 where f: "f a w1 = (r2, w2, e2)" by (cases "f a w1") auto
    from run m Inr f have "w' = w2" by (simp add: bindA_def)
    moreover from assms(2) [of w a w1 e1] m Inr f out have "P w2 m' = P w1 m'"
      by (auto simp: keepsA_def)
    ultimately show ?thesis using 1 by simp
  qed
qed

lemma keepsA_for_in:
  assumes "\<And>x. keepsA P S (body x)"
  shows "keepsA P S (for_in body xs)"
proof (induction xs)
  case Nil
  show ?case by (simp add: for_in_Nil keepsA_ret)
next
  case (Cons x xs)
  show ?case unfolding for_in_Cons by (rule keepsA_bindA) (simp_all add: assms Cons)
qed

lemma keepsD: "keeps P {} f \<Longrightarrow> f wa = (ra, wb) \<Longrightarrow> P wb m = P wa m"
  unfolding keeps_def by blast

lemma bindA_E:
  assumes "bindA m f w = (r, w', evs)"
  obtains (raised) e where "m w = (Inl e, w', evs)" "r = Inl e"
  | (returned) a w1 e1 e2 where "m w = (Inr a, w1, e1)" "f a w1 = (r, w', e2)" "evs = e1 @ e2"
  using assms by (auto simp: bindA_def split: sum.splits prod.splits)

lemma keepsA_loss_tail:
  assumes "built_over P owner E model loss_fn optimizer"
    and "keeps P {} (item l)" and "keeps P {} (backward l)"
  shows "keepsA P {owner}
      (bindA (if (t + 1) mod print_every = 0
              then bindA (invoke Item (item l)) (\<lambda>v. print (progress_line E (t + 1) v))
              else ret ()) (\<lambda>u.
       bindA (invoke ZeroGrad (zero_grad optimizer)) (\<lambda>u.
       bindA (invoke Backward (backward l)) (\<lambda>u.
       invoke Step (step optimizer)))))"
proof -
  note c = assms(1) [unfolded built_over_def]
  have mid: "keepsA P {owner}
      (if (t + 1) mod print_every = 0
       then bindA (invoke Item (item l)) (\<lambda>v. print (progress_line E (t + 1) v))
       else ret ())"
    using assms(2) by (auto intro!: keepsA_bindA keepsA_invoke keepsA_print keepsA_ret)
  have z: "keepsA P {owner} (invoke ZeroGrad (zero_grad optimizer))"
    using c by (intro keepsA_invoke [where S' = "{}"]) auto
  have b: "keepsA P {owner} (invoke Backward (backward l))"
    using assms(3) by (intro keepsA_invoke [where S' = "{}"]) auto
  have s: "keepsA P {owner} (invoke Step (step optimizer))"
    using c by (intro keepsA_invoke [where S' = "{owner}"]) auto
  show ?thesis
    by (intro keepsA_bindA mid z b s)
qed

lemma keepsA_train_batch:
  assumes "built_over P owner E model loss_fn optimizer"
  shows "keepsA P {owner} (train_batch E model loss_fn optimizer p)"
  unfolding keepsA_def
proof (intro allI impI)
  fix w r w' evs m
  assume run: "train_batch E model loss_fn optimizer p w = (r, w', evs)" and out: "m \<notin> {owner}"
  obtain t b where p: "p = (t, b)" by (cases p)
  note c = assms [unfolded built_over_def]
  from c have cV: "keeps P {} (Variable E v x)" for v x by simp
  from c have cL: "keeps P {} (LongVariable E y)" for y by simp
  from c have cM: "keeps P {} (m_call model x)" for x by simp
  from c have cF: "keeps P {} (loss_fn s y)" for s y by simp
  from c have cI: "loss_fn s y w = (Inr l, w') \<Longrightarrow> keeps P {} (item l) \<and> keeps P {} (backward l)"
    for s y w l w' by blast
  from run [unfolded p train_batch_def prod.case] show "P w' m = P w m"
  proof (cases rule: bindA_E)
    case (raised e)
    then show ?thesis by (simp add: invoke_Inl)
  next
    case (returned a w1 e1 e2)
    then have w1: "w1 = w" by (simp add: invoke_Inr)
    obtain x y where a: "a = (x, y)" by (cases a)
    from returned(2) [unfolded a prod.case] show ?thesis
    proof (cases rule: bindA_E)
      case (raised e)
      then have "Variable E False x w1 = (Inl e, w')" by (simp add: invoke_Inl)
      then have "P w' m = P w1 m" by (rule keepsD [OF cV])
      with w1 show ?thesis by simp
    next
      case (returned xv w2 e1 e2)
      then have "Variable E False x w1 = (Inr xv, w2)" by (simp add: invoke_Inr)
      then have 2: "P w2 m = P w1 m" by (rule keepsD [OF cV])
      from returned(2) show ?thesis
      proof (cases rule: bindA_E)
        case (raised e)
        then have "LongVariable E y w2 = (Inl e, w')" by (simp add: invoke_Inl)
        then have "P w' m = P w2 m" by (rule keepsD [OF cL])
        with w1 2 show ?thesis by simp
      next
        case (returned yv w3 e1 e2)
        then have "LongVariable E y w2 = (Inr yv, w3)" by (simp add: invoke_Inr)
        then have 3: "P w3 m = P w2 m" by (rule keepsD [OF cL])
        from returned(2) show ?thesis
        proof (cases rule: bindA_E)
          case (raised e)
          then have "m_call model xv w3 = (Inl e, w')" by (simp add: invoke_Inl)
          then have "P w' m = P w3 m" by (rule keepsD [OF cM])
          with w1 2 3 show ?thesis by simp
        next
          case (returned s w4 e1 e2)
          then have "m_call model xv w3 = (Inr s, w4)" by (simp add: invoke_Inr)
          then have 4: "P w4 m = P w3 m" by (rule keepsD [OF cM])
          from returned(2) show ?thesis
          proof (cases rule: bindA_E)
            case (raised e)
            then have "loss_fn s yv w4 = (Inl e, w')" by (simp add: invoke_Inl)
            then have "P w' m = P w4 m" by (rule keepsD [OF cF])
            with w1 2 3 4 show ?thesis by simp
          next
            case (returned l w5 e1 e2)
            then have l: "loss_fn s yv w4 = (Inr l, w5)" by (simp add: invoke_Inr)
            then have 5: "P w5 m = P w4 m" by (rule keepsD [OF cF])
            from cI [OF l] have kl: "keeps P {} (item l)" "keeps P {} (backward l)" by simp_all
            note tail = keepsA_loss_tail [OF assms kl, of t, unfolded keepsA_def, rule_format]
            from tail [OF returned(2) out] have "P w' m = P w5 m" .
            with w1 2 3 4 5 show ?thesis by simp
          qed
        qed
      qed
    qed
  qed
qed

lemma keepsA_train:
  assumes "built_over P owner E model loss_fn optimizer"
  shows "keepsA P {owner} (train E loader model loss_fn optimizer n)"
  unfolding train_def train_epoch_def
proof (intro keepsA_for_in keepsA_bindA keepsA_print keepsA_train_batch [OF assms])
  show "keepsA P {owner} (invoke ModelTrain (m_train model))"
    using assms by (intro keepsA_invoke [where S' = "{}"]) (auto simp: built_over_def)
qed

section \<open>A small framework: single steps\<close>

lemmas toy_defs = toy_env_def toy_module_def toy_loss_fn_def toy_optimizer_def toy_batches_def
  toy_start_def broken_module_def

lemmas run_defs = train_def train_epoch_def train_batch_def check_accuracy_def check_batch_def
  for_in_def bindA_def invoke_def ret_def raise_def print_def true_div_def eq_sum_def
  range2_def print_every_def

lemma toy_m_eval: "m_eval (toy_module r) w = (Inr (), w)"
  by (simp add: toy_module_def)

lemma toy_m_train: "m_train (toy_module r) w = (Inr (), w)"
  by (simp add: toy_module_def)

lemma toy_check_batch:
  "length x = length y \<Longrightarrow>
   check_batch toy_env (toy_module r) (Inr (x, y)) (c, n) w
     = (Inr (c + int (length (filter (\<lambda>(p, l). p = l) (zip (map (\<lambda>img. nat ((img + w r) mod 10)) x) y))),
             n + int (length x)),
        w, batch_events)"
  by (simp add: check_batch_def bindA_def invoke_def ret_def eq_sum_def toy_env_def toy_module_def
      batch_events_def o_def)

lemma toy_train_batch:
  "train_batch toy_env (toy_module r) toy_loss_fn (toy_optimizer r') (t, Inr (x, y)) w
     = (Inr (), w(r' := w r' + 1),
        map (\<lambda>k. Call k None) [LoaderNext, ToVariable, ToLongVariable, Forward, LossFn]
        @ (if (t + 1) mod print_every = 0
           then [Call Item None,
                 Print (progress_line toy_env (t + 1) (sum_list (map (\<lambda>img. img + w r) x)))]
           else [])
        @ map (\<lambda>k. Call k None) [ZeroGrad, Backward, Step])"
  by (simp add: train_batch_def bindA_def invoke_def ret_def print_def toy_env_def toy_module_def
      toy_loss_fn_def toy_optimizer_def)

lemma toy_iteration:
  "iteration toy_env (toy_module r) toy_loss_fn (toy_optimizer r') t (x, y) w
     = Some (if (t + 1) mod print_every = 0 then Some (sum_list (map (\<lambda>img. img + w r) x)) else None,
             w(r' := w r' + 1))"
  by (simp add: iteration_def batch_loss_def read_loss_def gradient_step_def toy_env_def
      toy_module_def toy_loss_fn_def toy_optimizer_def)

lemma toy_iterations:
  "iterations toy_env (toy_module 0) toy_loss_fn (toy_optimizer 0) k
     (map (\<lambda>i. ([int i, 3], [i mod 10, 4])) [k..<k + m]) w
   = Some (map (\<lambda>t. if (t + 1) mod print_every = 0
                     then Some (3 * int t - 2 * int k + 3 + 2 * w 0) else None) [k..<k + m],
           w(0 := w 0 + int m))"
proof (induction m arbitrary: k w)
  case 0
  then show ?case by simp
next
  case (Suc m)
  have up: "[k..<k + Suc m] = k # [Suc k..<Suc k + m]" by (simp add: upt_rec)
  show ?case
    unfolding up list.map iterations.simps toy_iteration Suc_eq_plus1 [symmetric] Suc.IH
    by (auto simp: algebra_simps fun_eq_iff)
qed

lemma progress_lines_None: "progress_lines E k (replicate m None @ vs) = progress_lines E (k + m) vs"
  by (induction m arbitrary: k) simp_all

lemma quiet_99:
  "map (\<lambda>t. if (t + 1) mod print_every = 0 then Some (g t) else None) [0..<99] = replicate 99 None"
proof -
  have "map (\<lambda>t. if (t + 1) mod print_every = 0 then Some (g t) else None) [0..<n] = replicate n None"
    if "n \<le> 99" for n
    using that
  proof (induction n)
    case 0
    then show ?case by simp
  next
    case (Suc n)
    then have "(n + 1) mod print_every \<noteq> 0" by (simp add: print_every_def)
    with Suc show ?case by (simp add: replicate_append_same)
  qed
  then show ?thesis by simp
qed

lemma toy_epoch_100:
  "epochs toy_env (toy_module 0) toy_loss_fn (toy_optimizer 0) 1
     (map (\<lambda>i. ([int i, 3], [i mod 10, 4])) [0..<100]) toy_start
   = Some ([replicate 99 None @ [Some 300]], toy_start(0 := 100))"
proof -
  let ?f = "\<lambda>t. if (t + 1) mod print_every = 0
                     then Some (3 * int t - 2 * int 0 + 3 + 2 * toy_start 0) else None"
  have "[0..<100] = [0..<99] @ [99]"
    using upt_Suc_append [of 0 99] by simp
  then have "map ?f [0..<100] = map ?f [0..<99] @ [?f 99]"
    by (simp only: map_append list.map)
  also have "\<dots> = replicate 99 None @ [?f 99]"
    by (simp only: quiet_99)
  also have "?f 99 = Some 300"
    by (simp add: print_every_def toy_start_def)
  finally have vs: "map ?f [0..<100] = replicate 99 None @ [Some 300]" .
  have its: "iterations toy_env (toy_module 0) toy_loss_fn (toy_optimizer 0) 0
     (map (\<lambda>i. ([int i, 3], [i mod 10, 4])) [0..<100]) toy_start
     = Some (replicate 99 None @ [Some 300], toy_start(0 := 100))"
    using toy_iterations [of 0 100 toy_start] unfolding vs [symmetric]
    by (simp add: toy_start_def)
  show ?thesis
    unfolding One_nat_def
    by (simp only: epochs.simps toy_m_train its prod.case sum.case option.case)
qed

lemma toy_lines_100:
  "epoch_lines toy_env 1 0 [replicate 99 None @ [Some 300]]
     = [''Starting epoch 1 / 1'', ''t = 100, loss = 300'']"
  by (simp add: progress_lines_None epoch_line_def progress_line_def show_int_def show_nat.simps
      digit_def toy_env_def)


lemma toy_epoch_2:
  "epochs toy_env (toy_module 0) toy_loss_fn (toy_optimizer 0) 1
     [([0, 3], [0, 4]), ([1, 3], [1, 4])] toy_start
   = Some ([[None, None]], toy_start(0 := 2))"
  by (simp add: toy_iteration toy_m_train print_every_def toy_start_def)


lemma toy_batches_map:
  "toy_batches n = map Inr (map (\<lambda>i. ([int i, 3], [i mod 10, 4])) [0..<n])"
  by (simp add: toy_batches_def)

lemma toy_batches_2: "toy_batches 2 = [Inr ([0, 3], [0, 4]), Inr ([1, 3], [1, 4])]"
  by code_simp

lemma toy_batches_3:
  "toy_batches 3 = [Inr ([0, 3], [0, 4]), Inr ([1, 3], [1, 4]), Inr ([2, 3], [2, 4])]"
  by code_simp

lemma toy_never_raises: "never_raises toy_env (toy_module r) toy_loss_fn (toy_optimizer r')"
  by (simp add: never_raises_def succeeds_def toy_defs)

lemma toy_yields: "\<forall>b \<in> set (yields (loader_train (toy_batches k))). \<exists>x y. b = Inr (x, y)"
  by (auto simp: loader_train_def toy_batches_def)

lemma toy_built_over: "built_over (\<lambda>w m. w m) r toy_env (toy_module r) toy_loss_fn (toy_optimizer r)"
  by (auto simp: built_over_def keeps_def toy_env_def toy_module_def toy_loss_fn_def toy_optimizer_def)

lemma toy_check:
  fixes L :: "int list DataLoader"
  assumes "yields L = toy_batches 3"
  shows "check_accuracy toy_env (toy_module 0) L toy_start
     = (Inr (), toy_start,
        [Print (header_line L), Call ModelEval None]
        @ batch_events @ batch_events @ batch_events
        @ [Print ''Got 3 / 6 correct (500000)''])"
proof -
  have loop: "fold_in (check_batch toy_env (toy_module 0)) (toy_batches 3) (0, 0) toy_start
      = (Inr (3, 6), toy_start, batch_events @ batch_events @ batch_events)"
    unfolding toy_batches_3
    by (simp add: bindA_def ret_def toy_check_batch toy_start_def)
  have line: "result_line toy_env 3 6 (float_div toy_env 3 6) = ''Got 3 / 6 correct (500000)''"
    by (simp add: result_line_def toy_env_def show_int_def show_nat.simps digit_def)
  have div: "true_div toy_env 3 6 w = (Inr (float_div toy_env 3 6), w, [])" for w :: toy_world
    by (simp add: true_div_def ret_def)
  show ?thesis
    unfolding check_accuracy_def if_print
    by (simp add: assms bindA_def print_def invoke_def toy_m_eval loop div line header_line_def)
qed

lemma toy_check_3:
  "check_accuracy toy_env (toy_module 0) (loader_val (toy_batches 3)) toy_start
     = (Inr (), toy_start,
        [Print ''Checking accuracy on validation set'', Call ModelEval None]
        @ batch_events @ batch_events @ batch_events
        @ [Print ''Got 3 / 6 correct (500000)''])"
  using toy_check [of "loader_val (toy_batches 3)"]
  by (simp add: loader_val_def header_line_def cifar10_val_def)

section \<open>The steps of the training loop\<close>

lemma filter_steps_iteration:
  "filter is_step (iteration_calls t) = [Forward, LossFn, ZeroGrad, Backward, Step]"
  by (simp add: iteration_calls_def is_step_def)

lemma concat_replicate_mult:
  "concat (replicate k (concat (replicate m xs))) = concat (replicate (k * m) xs)"
  by (induction k) (simp_all add: replicate_add)

lemma filter_steps_epochs:
  "filter is_step (concat (replicate k (ModelTrain # concat (map iteration_calls ts))))
     = concat (replicate (k * length ts) [Forward, LossFn, ZeroGrad, Backward, Step])"
proof -
  have "filter is_step (concat (map iteration_calls ts))
      = concat (replicate (length ts) [Forward, LossFn, ZeroGrad, Backward, Step])"
    by (induction ts) (simp_all add: filter_steps_iteration)
  moreover have "\<not> is_step ModelTrain" by (simp add: is_step_def)
  ultimately have "filter is_step (ModelTrain # concat (map iteration_calls ts))
      = concat (replicate (length ts) [Forward, LossFn, ZeroGrad, Backward, Step])"
    by simp
  then show ?thesis
    by (simp add: filter_concat concat_replicate_mult)
qed

lemma iteration_steps:
  "iteration E model loss_fn optimizer t (x, y) w0 = Some (v, w8) \<longleftrightarrow>
     (\<exists>x_var w1 y_var w2 scores w3 loss w4 w5 w6 w7.
        Variable E False x w0 = (Inr x_var, w1) \<and> LongVariable E y w1 = (Inr y_var, w2)
        \<and> m_call model x_var w2 = (Inr scores, w3)
        \<and> loss_fn scores y_var w3 = (Inr loss, w4)
        \<and> read_loss t loss w4 = Some (v, w5)
        \<and> zero_grad optimizer w5 = (Inr (), w6)
        \<and> backward loss w6 = (Inr (), w7)
        \<and> step optimizer w7 = (Inr (), w8))"
  by (auto simp: iteration_def batch_loss_def gradient_step_def
      split: prod.splits sum.splits option.splits)

lemma iteration_reads:
  "iteration E model loss_fn optimizer t (x, y) w0 = Some (Some l, w8) \<Longrightarrow>
     (t + 1) mod 100 = 0
     \<and> (\<exists>x_var w1 y_var w2 scores w3 loss w4.
          Variable E False x w0 = (Inr x_var, w1) \<and> LongVariable E y w1 = (Inr y_var, w2)
          \<and> m_call model x_var w2 = (Inr scores, w3)
          \<and> loss_fn scores y_var w3 = (Inr loss, w4)
          \<and> fst (item loss w4) = Inr l)"
  unfolding iteration_steps
  by (auto simp: read_loss_def print_every_def split: if_splits prod.splits sum.splits)

lemma iteration_quiet:
  "iteration E model loss_fn optimizer t (x, y) w0 = Some (None, w8) \<Longrightarrow> (t + 1) mod 100 \<noteq> 0"
  unfolding iteration_steps
  by (auto simp: read_loss_def print_every_def split: if_splits prod.splits sum.splits)

text \<open>
  C2. When \<open>train\<close> returns, the world it leaves is the one reached by running, for
  every epoch, \<open>model.train()\<close> and then one iteration for every batch the loader
  yields, in the order of the loader (\<open>epochs\<close>). One iteration, as the second part
  spells out, is: the forward pass \<open>model(x_var)\<close> on the converted images of the batch,
  the loss \<open>loss_fn(scores, y_var)\<close> of its scores and the converted labels, (in a
  printing iteration the read of the loss,) \<open>optimizer.zero_grad()\<close>, \<open>loss.backward()\<close> of
  this loss and \<open>optimizer.step()\<close>, every call in the world the one before it left.
  The framework calls of the run are these and the fetches of the batches, in this
  order; so the five steps forward, loss, zeroing, backward, update occur once each,
  in this order, for every batch of every epoch, and nothing else among them. And
  \<open>train\<close> does return whenever no framework call raises and the loader yields its
  batches.
\<close>

theorem train_steps:
  "(train E loader model loss_fn optimizer n w = (Inr u, w', evs) \<longrightarrow>
      (\<exists>bs vss. (0 < n \<longrightarrow> yields loader = map Inr bs)
         \<and> epochs E model loss_fn optimizer (nat n) bs w = Some (vss, w'))
      \<and> calls evs = concat (replicate (nat n)
                    (ModelTrain # concat (map iteration_calls [0..<length (yields loader)])))
      \<and> filter is_step (calls evs)
          = concat (replicate (nat n * length (yields loader))
              [Forward, LossFn, ZeroGrad, Backward, Step]))
   \<and> (iteration E model loss_fn optimizer t (x, y) w0 = Some (v, w8) \<longleftrightarrow>
       (\<exists>x_var w1 y_var w2 scores w3 loss w4 w5 w6 w7.
          Variable E False x w0 = (Inr x_var, w1) \<and> LongVariable E y w1 = (Inr y_var, w2)
          \<and> m_call model x_var w2 = (Inr scores, w3)
          \<and> loss_fn scores y_var w3 = (Inr loss, w4)
          \<and> read_loss t loss w4 = Some (v, w5)
          \<and> zero_grad optimizer w5 = (Inr (), w6)
          \<and> backward loss w6 = (Inr (), w7)
          \<and> step optimizer w7 = (Inr (), w8)))
   \<and> (never_raises E model loss_fn optimizer \<and> (\<forall>b \<in> set (yields loader). \<exists>x y. b = Inr (x, y))
        \<longrightarrow> (\<exists>w' evs. train E loader model loss_fn optimizer n w = (Inr (), w', evs)))"
proof (intro conjI impI)
  assume run: "train E loader model loss_fn optimizer n w = (Inr u, w', evs)"
  from train_iterations [OF run]
  show "\<exists>bs vss. (0 < n \<longrightarrow> yields loader = map Inr bs)
         \<and> epochs E model loss_fn optimizer (nat n) bs w = Some (vss, w')"
    by blast
  show c: "calls evs = concat (replicate (nat n)
                    (ModelTrain # concat (map iteration_calls [0..<length (yields loader)])))"
    using run by (rule train_calls)
  show "filter is_step (calls evs)
          = concat (replicate (nat n * length (yields loader))
              [Forward, LossFn, ZeroGrad, Backward, Step])"
    unfolding c by (simp add: filter_steps_epochs)
next
  show "iteration E model loss_fn optimizer t (x, y) w0 = Some (v, w8) \<longleftrightarrow>
       (\<exists>x_var w1 y_var w2 scores w3 loss w4 w5 w6 w7.
          Variable E False x w0 = (Inr x_var, w1) \<and> LongVariable E y w1 = (Inr y_var, w2)
          \<and> m_call model x_var w2 = (Inr scores, w3)
          \<and> loss_fn scores y_var w3 = (Inr loss, w4)
          \<and> read_loss t loss w4 = Some (v, w5)
          \<and> zero_grad optimizer w5 = (Inr (), w6)
          \<and> backward loss w6 = (Inr (), w7)
          \<and> step optimizer w7 = (Inr (), w8))"
    by (rule iteration_steps)
next
  assume "never_raises E model loss_fn optimizer \<and> (\<forall>b \<in> set (yields loader). \<exists>x y. b = Inr (x, y))"
  then have a: "never_raises E model loss_fn optimizer"
    and b: "\<forall>b \<in> set (yields loader). \<exists>x y. b = Inr (x, y)" by simp_all
  show "\<exists>w' evs. train E loader model loss_fn optimizer n w = (Inr (), w', evs)"
    by (rule train_returns [OF a b])
qed

lemma toy_train_2:
  "fst (train toy_env (loader_train (toy_batches 2)) (toy_module 0) toy_loss_fn (toy_optimizer 0) 1
     toy_start) = Inr ()"
  unfolding toy_batches_2
  by (simp add: train_def train_epoch_def for_in_def range2_def bindA_def print_def invoke_def
      toy_m_train loader_train_def toy_train_batch ret_def)

theorem train_steps_witness:
  "never_raises toy_env (toy_module 0) toy_loss_fn (toy_optimizer 0)
   \<and> fst (train toy_env (loader_train (toy_batches 2)) (toy_module 0) toy_loss_fn (toy_optimizer 0) 1
        toy_start) = Inr ()
   \<and> fst (snd (train toy_env (loader_train (toy_batches 2)) (toy_module 0) toy_loss_fn
        (toy_optimizer 0) 1 toy_start)) = toy_start(0 := 2)
   \<and> epochs toy_env (toy_module 0) toy_loss_fn (toy_optimizer 0) 1
        [([0, 3], [0, 4]), ([1, 3], [1, 4])] toy_start
       = Some ([[None, None]], toy_start(0 := 2))
   \<and> calls (snd (snd (train toy_env (loader_train (toy_batches 2)) (toy_module 0) toy_loss_fn
        (toy_optimizer 0) 1 toy_start)))
       = [ModelTrain,
          LoaderNext, ToVariable, ToLongVariable, Forward, LossFn, ZeroGrad, Backward, Step,
          LoaderNext, ToVariable, ToLongVariable, Forward, LossFn, ZeroGrad, Backward, Step]
   \<and> filter is_step (calls (snd (snd (train toy_env (loader_train (toy_batches 2)) (toy_module 0)
        toy_loss_fn (toy_optimizer 0) 1 toy_start))))
       = [Forward, LossFn, ZeroGrad, Backward, Step, Forward, LossFn, ZeroGrad, Backward, Step]
   \<and> iteration toy_env (toy_module 0) toy_loss_fn (toy_optimizer 0) 0 ([0, 3], [0, 4]) toy_start
       = Some (None, toy_start(0 := 1))
   \<and> (\<exists>x_var w1 y_var w2 scores w3 loss w4 w5 w6 w7.
          Variable toy_env False [0, 3] toy_start = (Inr x_var, w1)
          \<and> LongVariable toy_env [0, 4] w1 = (Inr y_var, w2)
          \<and> m_call (toy_module 0) x_var w2 = (Inr scores, w3)
          \<and> toy_loss_fn scores y_var w3 = (Inr loss, w4)
          \<and> read_loss 0 loss w4 = Some (None, w5)
          \<and> zero_grad (toy_optimizer 0) w5 = (Inr (), w6)
          \<and> backward loss w6 = (Inr (), w7)
          \<and> step (toy_optimizer 0) w7 = (Inr (), toy_start(0 := 1)))"
proof -
  let ?L = "loader_train (toy_batches 2) :: int list DataLoader"
  let ?R = "train toy_env ?L (toy_module 0) toy_loss_fn (toy_optimizer 0) 1 toy_start"
  have run: "?R = (Inr (), fst (snd ?R), snd (snd ?R))"
    using toy_train_2 by (metis prod.collapse)
  have len: "length (yields ?L) = 2"
    by (simp add: loader_train_def toy_batches_def)
  have ys: "yields ?L = map Inr [([0, 3], [0, 4]), ([1, 3], [1, 4])]"
    by (simp add: loader_train_def toy_batches_2)
  note T = train_steps [of toy_env ?L "toy_module 0" toy_loss_fn
      "toy_optimizer 0" 1 toy_start "()" "fst (snd ?R)" "snd (snd ?R)"
      0 "[0, 3]" "[0, 4]" toy_start None "toy_start(0 := 1)"]
  note t = T [THEN conjunct1, rule_format, OF run]
  from t [THEN conjunct1] obtain bs vss where
    "yields ?L = map Inr bs" and
    ep: "epochs toy_env (toy_module 0) toy_loss_fn (toy_optimizer 0) (nat 1) bs toy_start
          = Some (vss, fst (snd ?R))"
    by auto
  with ys have "bs = [([0, 3], [0, 4]), ([1, 3], [1, 4])]"
    by (simp add: map_Inr_inject)
  with ep toy_epoch_2 have w: "fst (snd ?R) = toy_start(0 := 2)" by simp
  from t [THEN conjunct2, THEN conjunct1] have c: "calls (snd (snd ?R)) =
       [ModelTrain,
          LoaderNext, ToVariable, ToLongVariable, Forward, LossFn, ZeroGrad, Backward, Step,
          LoaderNext, ToVariable, ToLongVariable, Forward, LossFn, ZeroGrad, Backward, Step]"
    unfolding len by (simp add: iteration_calls_def print_every_def upt_rec)
  from t [THEN conjunct2, THEN conjunct2] have f: "filter is_step (calls (snd (snd ?R)))
       = [Forward, LossFn, ZeroGrad, Backward, Step, Forward, LossFn, ZeroGrad, Backward, Step]"
    unfolding len by (simp add: numeral_2_eq_2)
  have it: "iteration toy_env (toy_module 0) toy_loss_fn (toy_optimizer 0) 0 ([0, 3], [0, 4]) toy_start
       = Some (None, toy_start(0 := 1))"
    by (simp add: toy_iteration print_every_def toy_start_def)
  note s = T [THEN conjunct2, THEN conjunct1, THEN iffD1, OF it]
  show ?thesis
    using toy_never_raises toy_train_2 w toy_epoch_2 c f it s by (intro conjI)
qed

section \<open>The printed lines\<close>

lemma calls_batch_events: "calls batch_events = [LoaderNext, ToVariable, Forward, Max1, EqSum]"
  by (simp add: calls_def batch_events_def)

lemma printed_batch_events: "printed batch_events = []"
  by (simp add: printed_def batch_events_def)

lemma calls_concat_replicate: "calls (concat (replicate k evs)) = concat (replicate k (calls evs))"
  by (induction k) (simp_all add: calls_append, simp add: calls_def)

lemma printed_concat_replicate: "printed evs = [] \<Longrightarrow> printed (concat (replicate k evs)) = []"
  by (induction k) (simp_all add: printed_append, simp add: printed_def)

text \<open>
  C4. What \<open>train\<close> prints when it returns is, for every epoch, the line of the epoch
  and then one progress line for every loss read in it (\<open>epoch_lines\<close> of the values
  that \<open>epochs\<close> reads), nothing else. A loss is read in the iterations \<open>t\<close> with
  \<open>(t + 1) mod 100 = 0\<close> and in no other; the value read is \<open>loss.data.item()\<close> of the
  loss that \<open>loss_fn\<close> returned for the scores and the labels of the batch of this
  iteration; its line is \<open>'t = %d, loss = %.4f'\<close> of the iteration number \<open>t + 1\<close>,
  counted from 1, and of this value. What \<open>check_accuracy\<close> prints when it returns is
  its header line and exactly one result line, \<open>'Got %d / %d correct (%.2f)'\<close> of
  \<open>num_correct\<close>, \<open>num_samples\<close> (not zero) as counted over the predictions, and
  \<open>100 * acc\<close> with \<open>acc = float(num_correct) / num_samples\<close>.
\<close>

theorem printed_lines:
  "(train E loader model loss_fn optimizer n w = (Inr u, w', evs) \<longrightarrow>
      (\<exists>bs vss. (0 < n \<longrightarrow> yields loader = map Inr bs)
         \<and> epochs E model loss_fn optimizer (nat n) bs w = Some (vss, w')
         \<and> printed evs = epoch_lines E n 0 vss))
   \<and> (check_accuracy E model loader2 w2 = (Inr u2, w2', evs2) \<longrightarrow>
      (\<exists>bs w1 num_correct num_samples.
         yields loader2 = map Inr bs \<and> m_eval model w2 = (Inr (), w1)
         \<and> num_correct = sum_list (map2 the_count (predictions E model bs w1) (map snd bs))
         \<and> num_samples = int (length (concat (predictions E model bs w1)))
         \<and> num_samples \<noteq> 0
         \<and> printed evs2 =
             [header_line loader2,
              result_line E num_correct num_samples (float_div E num_correct num_samples)]))
   \<and> (iteration E model loss_fn optimizer t (x, y) w0 = Some (Some l, w8) \<longrightarrow>
        (t + 1) mod 100 = 0
        \<and> (\<exists>x_var w1 y_var w2 scores w3 loss w4.
             Variable E False x w0 = (Inr x_var, w1) \<and> LongVariable E y w1 = (Inr y_var, w2)
             \<and> m_call model x_var w2 = (Inr scores, w3)
             \<and> loss_fn scores y_var w3 = (Inr loss, w4)
             \<and> fst (item loss w4) = Inr l))
   \<and> (iteration E model loss_fn optimizer t (x, y) w0 = Some (None, w8) \<longrightarrow> (t + 1) mod 100 \<noteq> 0)
   \<and> epoch_lines E n e (ls # lss) =
       (''Starting epoch '' @ show_int (e + 1) @ '' / '' @ show_int n)
       # progress_lines E 0 ls @ epoch_lines E n (e + 1) lss
   \<and> progress_lines E t (Some l # ls) =
       (''t = '' @ show_int (int (t + 1)) @ '', loss = '' @ format_f E 4 l)
       # progress_lines E (t + 1) ls
   \<and> progress_lines E t (None # ls) = progress_lines E (t + 1) ls
   \<and> result_line E c s a =
       ''Got '' @ show_int c @ '' / '' @ show_int s @ '' correct (''
         @ format_f E 2 (float_mul E 100 a) @ '')''"
proof (intro conjI impI)
  assume "train E loader model loss_fn optimizer n w = (Inr u, w', evs)"
  then show "\<exists>bs vss. (0 < n \<longrightarrow> yields loader = map Inr bs)
         \<and> epochs E model loss_fn optimizer (nat n) bs w = Some (vss, w')
         \<and> printed evs = epoch_lines E n 0 vss"
    by (rule train_iterations)
next
  assume "check_accuracy E model loader2 w2 = (Inr u2, w2', evs2)"
  from check_accuracy_normal [OF this] obtain bs w1 nc ns where
    ys: "yields loader2 = map Inr bs" and ev: "m_eval model w2 = (Inr (), w1)" and
    nc: "nc = sum_list (map2 the_count (predictions E model bs w1) (map snd bs))" and
    ns: "ns = int (length (concat (predictions E model bs w1)))" and
    ns0: "ns \<noteq> 0" and
    evs: "evs2 = [Print (header_line loader2), Call ModelEval None]
           @ concat (replicate (length bs) batch_events)
           @ [Print (result_line E nc ns (float_div E nc ns))]"
    by blast
  have "printed evs2 = [header_line loader2, result_line E nc ns (float_div E nc ns)]"
    unfolding evs printed_append
    by (simp add: printed_concat_replicate [OF printed_batch_events]) (simp add: printed_def)
  with ys ev nc ns ns0 show "\<exists>bs w1 num_correct num_samples.
         yields loader2 = map Inr bs \<and> m_eval model w2 = (Inr (), w1)
         \<and> num_correct = sum_list (map2 the_count (predictions E model bs w1) (map snd bs))
         \<and> num_samples = int (length (concat (predictions E model bs w1)))
         \<and> num_samples \<noteq> 0
         \<and> printed evs2 =
             [header_line loader2,
              result_line E num_correct num_samples (float_div E num_correct num_samples)]"
    by blast
next
  assume it: "iteration E model loss_fn optimizer t (x, y) w0 = Some (Some l, w8)"
  from iteration_reads [OF it] show "(t + 1) mod 100 = 0" by (rule conjunct1)
  from iteration_reads [OF it]
  show "\<exists>x_var w1 y_var w2 scores w3 loss w4.
             Variable E False x w0 = (Inr x_var, w1) \<and> LongVariable E y w1 = (Inr y_var, w2)
             \<and> m_call model x_var w2 = (Inr scores, w3)
             \<and> loss_fn scores y_var w3 = (Inr loss, w4)
             \<and> fst (item loss w4) = Inr l"
    by (rule conjunct2)
next
  assume "iteration E model loss_fn optimizer t (x, y) w0 = Some (None, w8)"
  then show "(t + 1) mod 100 \<noteq> 0" by (rule iteration_quiet)
next
  show "epoch_lines E n e (ls # lss) =
       (''Starting epoch '' @ show_int (e + 1) @ '' / '' @ show_int n)
       # progress_lines E 0 ls @ epoch_lines E n (e + 1) lss"
    by (simp add: epoch_line_def)
  show "progress_lines E t (Some l # ls) =
       (''t = '' @ show_int (int (t + 1)) @ '', loss = '' @ format_f E 4 l)
       # progress_lines E (t + 1) ls"
    by (simp add: progress_line_def)
  show "progress_lines E t (None # ls) = progress_lines E (t + 1) ls"
    by simp
  show "result_line E c s a =
       ''Got '' @ show_int c @ '' / '' @ show_int s @ '' correct (''
         @ format_f E 2 (float_mul E 100 a) @ '')''"
    by (simp add: result_line_def)
qed


theorem printed_lines_witness:
  "(\<exists>evs.
      train toy_env (loader_train (toy_batches 100)) (toy_module 0) toy_loss_fn (toy_optimizer 0) 1
        toy_start = (Inr (), toy_start(0 := 100), evs)
      \<and> printed evs = [''Starting epoch 1 / 1'', ''t = 100, loss = 300''])
   \<and> epochs toy_env (toy_module 0) toy_loss_fn (toy_optimizer 0) 1
        (map (\<lambda>i. ([int i, 3], [i mod 10, 4])) [0..<100]) toy_start
       = Some ([replicate 99 None @ [Some 300]], toy_start(0 := 100))
   \<and> check_accuracy toy_env (toy_module 0) (loader_val (toy_batches 3)) toy_start
     = (Inr (), toy_start,
        [Print ''Checking accuracy on validation set'', Call ModelEval None]
        @ batch_events @ batch_events @ batch_events
        @ [Print ''Got 3 / 6 correct (500000)''])
   \<and> (\<exists>bs w1 num_correct num_samples.
         yields (loader_val (toy_batches 3)) = map Inr bs
         \<and> m_eval (toy_module 0) toy_start = (Inr (), w1)
         \<and> num_correct = sum_list (map2 the_count (predictions toy_env (toy_module 0) bs w1) (map snd bs))
         \<and> num_samples = int (length (concat (predictions toy_env (toy_module 0) bs w1)))
         \<and> num_samples \<noteq> 0
         \<and> printed ([Print ''Checking accuracy on validation set'', Call ModelEval None]
             @ batch_events @ batch_events @ batch_events
             @ [Print ''Got 3 / 6 correct (500000)''])
           = [header_line (loader_val (toy_batches 3)),
              result_line toy_env num_correct num_samples
                (float_div toy_env num_correct num_samples)])
   \<and> iteration toy_env (toy_module 0) toy_loss_fn (toy_optimizer 0) 99 ([99, 3], [9, 4])
        (toy_start(0 := 99)) = Some (Some 300, toy_start(0 := 100))
   \<and> (\<exists>x_var w1 y_var w2 scores w3 loss w4.
         Variable toy_env False [99, 3] (toy_start(0 := 99)) = (Inr x_var, w1)
         \<and> LongVariable toy_env [9, 4] w1 = (Inr y_var, w2)
         \<and> m_call (toy_module 0) x_var w2 = (Inr scores, w3)
         \<and> toy_loss_fn scores y_var w3 = (Inr loss, w4)
         \<and> fst (item loss w4) = Inr 300)
   \<and> iteration toy_env (toy_module 0) toy_loss_fn (toy_optimizer 0) 0 ([0, 3], [0, 4]) toy_start
       = Some (None, toy_start(0 := 1))"
proof -
  let ?L = "loader_train (toy_batches 100) :: int list DataLoader"
  let ?bs = "map (\<lambda>i. ([int i, 3], [i mod 10, 4])) [0..<100] :: (int list \<times> nat list) list"
  from train_returns [OF toy_never_raises [of 0 0] toy_yields [of 100], where n = 1 and w = toy_start]
  obtain w' evs where
    run: "train toy_env ?L (toy_module 0) toy_loss_fn (toy_optimizer 0) 1 toy_start = (Inr (), w', evs)"
    by blast
  have ys: "yields ?L = map Inr ?bs"
    unfolding toy_batches_map by (simp add: loader_train_def)
  have it: "iteration toy_env (toy_module 0) toy_loss_fn (toy_optimizer 0) 99 ([99, 3], [9, 4])
        (toy_start(0 := 99)) = Some (Some 300, toy_start(0 := 100))"
    by (simp add: toy_iteration print_every_def)
  have it0: "iteration toy_env (toy_module 0) toy_loss_fn (toy_optimizer 0) 0 ([0, 3], [0, 4]) toy_start
       = Some (None, toy_start(0 := 1))"
    by (simp add: toy_iteration print_every_def toy_start_def)
  note T = printed_lines [where E = toy_env and model = "toy_module 0" and loss_fn = toy_loss_fn
      and optimizer = "toy_optimizer 0" and ?loader2.0 = "loader_val (toy_batches 3)"
      and ?w2.0 = toy_start]
  from T [where loader = ?L and n = 1 and w = toy_start and u = "()" and w' = w' and evs = evs,
      THEN conjunct1, rule_format, OF run]
  obtain bs vss where
    "yields ?L = map Inr bs" and
    ep: "epochs toy_env (toy_module 0) toy_loss_fn (toy_optimizer 0) (nat 1) bs toy_start
          = Some (vss, w')" and
    pr: "printed evs = epoch_lines toy_env 1 0 vss"
    by auto
  with ys have "bs = ?bs" by (simp add: map_Inr_inject)
  with ep toy_epoch_100 have "vss = [replicate 99 None @ [Some 300]]" "w' = toy_start(0 := 100)"
    by simp_all
  with run pr toy_lines_100 have A: "\<exists>evs.
      train toy_env ?L (toy_module 0) toy_loss_fn (toy_optimizer 0) 1 toy_start
        = (Inr (), toy_start(0 := 100), evs)
      \<and> printed evs = [''Starting epoch 1 / 1'', ''t = 100, loss = 300'']"
    by simp
  note B = T [THEN conjunct2, THEN conjunct1, rule_format, OF toy_check_3]
  note C = T [where t = 99 and x = "[99, 3]" and y = "[9, 4]" and ?w0.0 = "toy_start(0 := 99)"
      and l = 300 and ?w8.0 = "toy_start(0 := 100)",
      THEN conjunct2, THEN conjunct2, THEN conjunct1, rule_format, OF it, THEN conjunct2]
  show ?thesis
    using A toy_epoch_100 toy_check_3 B it C it0 by (intro conjI)
qed

section \<open>What check_accuracy counts\<close>

lemma check_accuracy_eval_first:
  assumes "check_accuracy E model loader w = (r, w', evs)"
  shows "\<exists>x rest. evs = Print (header_line loader) # Call ModelEval x # rest"
proof -
  from assms obtain rest where
    evs: "evs = Print (header_line loader) # rest" and
    rest: "bindA (invoke ModelEval (m_eval model)) (\<lambda>u.
           bindA (fold_in (check_batch E model) (yields loader) (0, 0)) (\<lambda>(num_correct, num_samples).
           bindA (true_div E num_correct num_samples) (\<lambda>acc.
           print (result_line E num_correct num_samples acc)))) w = (r, w', rest)"
    unfolding check_accuracy_def if_print bindA_print header_line_def by blast
  from rest have "\<exists>x tl. rest = Call ModelEval x # tl"
  proof (cases rule: bindA_E)
    case (raised e)
    then show ?thesis by (simp add: invoke_Inl)
  next
    case (returned a w1 e1 e2)
    then show ?thesis by (simp add: invoke_Inr)
  qed
  with evs show ?thesis by blast
qed

text \<open>
  C1. In every call of \<open>check_accuracy\<close>, whatever happens later, the first thing after
  the header line is the call \<open>model.eval()\<close>: no batch is fetched or processed before
  it. When the call returns, the loader has yielded batches \<open>bs\<close>, the model was put
  into inference mode, leaving the world \<open>w1\<close>, and for the predictions made from
  \<open>w1\<close> on (one forward pass and one \<open>max(1)\<close> for every batch, in order):
  \<open>num_samples\<close> is the number of predictions and \<open>num_correct\<close> the sum over the batches
  of \<open>(preds == y).sum()\<close>; when the model returns one prediction for every sample
  (\<open>one_each\<close>), \<open>num_correct\<close> is the number of samples whose predicted class equals
  the label and \<open>num_samples\<close> is the number of samples of all batches; and the accuracy
  in the last line printed is the float quotient \<open>float(num_correct) / num_samples\<close>.
\<close>

theorem check_accuracy_counts:
  assumes "check_accuracy E model loader w = (r, w', evs)"
  shows "(\<exists>x rest. evs = Print (header_line loader) # Call ModelEval x # rest)
   \<and> (\<forall>u. r = Inr u \<longrightarrow> (\<exists>bs w1 num_correct num_samples.
     yields loader = map Inr bs
     \<and> m_eval model w = (Inr (), w1)
     \<and> calls evs = ModelEval # concat (replicate (length bs) [LoaderNext, ToVariable, Forward, Max1, EqSum])
     \<and> length (predictions E model bs w1) = length bs
     \<and> num_correct = sum_list (map2 the_count (predictions E model bs w1) (map snd bs))
     \<and> num_samples = int (length (concat (predictions E model bs w1)))
     \<and> num_samples \<noteq> 0
     \<and> (one_each (predictions E model bs w1) (map snd bs) \<longrightarrow>
          num_correct = int (length (filter (\<lambda>(p, l). p = l)
                                (samples (predictions E model bs w1) (map snd bs))))
          \<and> num_samples = int (length (concat (map snd bs))))
     \<and> last (printed evs)
          = result_line E num_correct num_samples (float_div E num_correct num_samples)))"
proof (intro conjI allI impI)
  show "\<exists>x rest. evs = Print (header_line loader) # Call ModelEval x # rest"
    using assms by (rule check_accuracy_eval_first)
next
  fix u
  assume "r = Inr u"
  with assms have run: "check_accuracy E model loader w = (Inr u, w', evs)" by simp
  from check_accuracy_normal [OF run] obtain bs w1 nc ns where
    ys: "yields loader = map Inr bs" and
    ev: "m_eval model w = (Inr (), w1)" and
    len: "length (predictions E model bs w1) = length bs" and
    nc: "nc = sum_list (map2 the_count (predictions E model bs w1) (map snd bs))" and
    ns: "ns = int (length (concat (predictions E model bs w1)))" and
    ns0: "ns \<noteq> 0" and
    evs: "evs = [Print (header_line loader), Call ModelEval None]
           @ concat (replicate (length bs) batch_events)
           @ [Print (result_line E nc ns (float_div E nc ns))]"
    by blast
  have c: "calls evs = ModelEval # concat (replicate (length bs) [LoaderNext, ToVariable, Forward, Max1, EqSum])"
    unfolding evs calls_append calls_concat_replicate calls_batch_events
    by (simp add: calls_def)
  have p: "last (printed evs) = result_line E nc ns (float_div E nc ns)"
    unfolding evs printed_append by (simp add: printed_def)
  have one: "nc = int (length (filter (\<lambda>(p, l). p = l)
                                (samples (predictions E model bs w1) (map snd bs))))
          \<and> ns = int (length (concat (map snd bs)))"
    if "one_each (predictions E model bs w1) (map snd bs)"
    using one_each_counts [OF that] nc ns by simp
  show "\<exists>bs w1 num_correct num_samples.
     yields loader = map Inr bs
     \<and> m_eval model w = (Inr (), w1)
     \<and> calls evs = ModelEval # concat (replicate (length bs) [LoaderNext, ToVariable, Forward, Max1, EqSum])
     \<and> length (predictions E model bs w1) = length bs
     \<and> num_correct = sum_list (map2 the_count (predictions E model bs w1) (map snd bs))
     \<and> num_samples = int (length (concat (predictions E model bs w1)))
     \<and> num_samples \<noteq> 0
     \<and> (one_each (predictions E model bs w1) (map snd bs) \<longrightarrow>
          num_correct = int (length (filter (\<lambda>(p, l). p = l)
                                (samples (predictions E model bs w1) (map snd bs))))
          \<and> num_samples = int (length (concat (map snd bs))))
     \<and> last (printed evs)
          = result_line E num_correct num_samples (float_div E num_correct num_samples)"
    using ys ev c len nc ns ns0 one p by blast
qed

theorem check_accuracy_counts_witness:
  "check_accuracy toy_env (toy_module 0) (loader_val (toy_batches 3)) toy_start
     = (Inr (), toy_start,
        [Print ''Checking accuracy on validation set'', Call ModelEval None]
        @ batch_events @ batch_events @ batch_events
        @ [Print ''Got 3 / 6 correct (500000)''])
   \<and> (\<exists>bs w1 num_correct num_samples.
     yields (loader_val (toy_batches 3)) = map Inr bs
     \<and> m_eval (toy_module 0) toy_start = (Inr (), w1)
     \<and> calls ([Print ''Checking accuracy on validation set'', Call ModelEval None]
        @ batch_events @ batch_events @ batch_events
        @ [Print ''Got 3 / 6 correct (500000)''])
         = ModelEval # concat (replicate (length bs) [LoaderNext, ToVariable, Forward, Max1, EqSum])
     \<and> length (predictions toy_env (toy_module 0) bs w1) = length bs
     \<and> num_correct = sum_list (map2 the_count (predictions toy_env (toy_module 0) bs w1) (map snd bs))
     \<and> num_samples = int (length (concat (predictions toy_env (toy_module 0) bs w1)))
     \<and> num_samples \<noteq> 0
     \<and> (one_each (predictions toy_env (toy_module 0) bs w1) (map snd bs) \<longrightarrow>
          num_correct = int (length (filter (\<lambda>(p, l). p = l)
                                (samples (predictions toy_env (toy_module 0) bs w1) (map snd bs))))
          \<and> num_samples = int (length (concat (map snd bs))))
     \<and> last (printed ([Print ''Checking accuracy on validation set'', Call ModelEval None]
        @ batch_events @ batch_events @ batch_events
        @ [Print ''Got 3 / 6 correct (500000)'']))
          = result_line toy_env num_correct num_samples (float_div toy_env num_correct num_samples))
   \<and> predictions toy_env (toy_module 0) [([0, 3], [0, 4]), ([1, 3], [1, 4]), ([2, 3], [2, 4])]
        toy_start = [[0, 3], [1, 3], [2, 3]]
   \<and> one_each [[0, 3], [1, 3], [2, 3]] [[0, 4], [1, 4], [2, 4]]
   \<and> samples [[0, 3], [1, 3], [2, 3]] [[0, 4], [1, 4], [2, 4]]
        = [(0, 0), (3, 4), (1, 1), (3, 4), (2, 2), (3, 4)]"
proof -
  have P: "predictions toy_env (toy_module 0) [([0, 3], [0, 4]), ([1, 3], [1, 4]), ([2, 3], [2, 4])]
        toy_start = [[0, 3], [1, 3], [2, 3]]"
    by (simp add: toy_env_def toy_module_def toy_start_def)
  have O: "one_each [[0, 3], [1, 3], [2, 3]] [[0, 4], [1, 4], [2, 4]]"
    by (simp add: one_each_def)
  have S: "samples [[0, 3], [1, 3], [2, 3]] [[0, 4], [1, 4], [2, 4]]
        = [(0, 0), (3, 4), (1, 1), (3, 4), (2, 2), (3, 4)]"
    by (simp add: samples_def)
  note t = check_accuracy_counts [OF toy_check_3, THEN conjunct2, rule_format, OF refl]
  show ?thesis
    using toy_check_3 t P O S
    by (intro conjI)
qed

section \<open>The header of check_accuracy\<close>

lemma fold_in_silent:
  assumes "\<And>x acc w r w' evs. body x acc w = (r, w', evs) \<Longrightarrow> printed evs = []"
  shows "fold_in body xs acc w = (r, w', evs) \<Longrightarrow> printed evs = []"
proof (induction xs arbitrary: acc w evs)
  case Nil
  then show ?case by (simp add: ret_eq printed_def)
next
  case (Cons x xs)
  from Cons.prems [unfolded fold_in.simps] show ?case
  proof (cases rule: bindA_E)
    case (raised e)
    then show ?thesis using assms by blast
  next
    case (returned a w1 e1 e2)
    with assms [OF returned(1)] Cons.IH [OF returned(2)] show ?thesis
      by (simp add: printed_append)
  qed
qed

lemma invoke_silent: "invoke k f w = (r, w', evs) \<Longrightarrow> printed evs = []"
  by (auto simp: invoke_def printed_def split: sum.splits prod.splits)

lemma check_batch_silent:
  assumes "check_batch E model b acc w = (r, w', evs)"
  shows "printed evs = []"
proof -
  obtain c n where acc: "acc = (c, n)" by (cases acc)
  from assms [unfolded acc check_batch_def prod.case] show ?thesis
    by (auto elim!: bindA_E dest!: invoke_silent simp: ret_eq printed_append split: prod.splits)
qed

lemma check_loop_silent:
  assumes "fold_in (check_batch E model) ys acc w = (r, w', evs)"
  shows "printed evs = []"
  using assms by (rule fold_in_silent [rotated]) (rule check_batch_silent)

lemma true_div_silent: "true_div E a b w = (r, w', evs) \<Longrightarrow> evs = []"
  by (auto simp: true_div_def raise_def ret_def split: if_splits)

lemma check_accuracy_printed:
  assumes "check_accuracy E model loader w = (r, w', evs)"
  shows "printed evs = [header_line loader]
    \<or> (\<exists>nc ns a. printed evs = [header_line loader, result_line E nc ns a])"
proof -
  from assms obtain rest where
    evs: "evs = Print (header_line loader) # rest" and
    rest: "bindA (invoke ModelEval (m_eval model)) (\<lambda>u.
           bindA (fold_in (check_batch E model) (yields loader) (0, 0)) (\<lambda>(num_correct, num_samples).
           bindA (true_div E num_correct num_samples) (\<lambda>acc.
           print (result_line E num_correct num_samples acc)))) w = (r, w', rest)"
    unfolding check_accuracy_def if_print bindA_print header_line_def by blast
  have "printed rest = [] \<or> (\<exists>nc ns a. printed rest = [result_line E nc ns a])"
    using rest
  proof (cases rule: bindA_E)
    case (raised e)
    from invoke_silent [OF raised(1)] show ?thesis by simp
  next
    case (returned u w1 e1 e2)
    from invoke_silent [OF returned(1)] have e1: "printed e1 = []" .
    from returned(2) show ?thesis
    proof (cases rule: bindA_E)
      case (raised e)
      from check_loop_silent [OF raised(1)] e1 returned(3)
      show ?thesis by (simp add: printed_append)
    next
      case (returned p w2 e3 e4)
      from check_loop_silent [OF returned(1)] have e3: "printed e3 = []" .
      obtain nc ns where p: "p = (nc, ns)" by (cases p)
      from returned(2) [unfolded p prod.case] have "printed e4 = [] \<or> (\<exists>a. printed e4 = [result_line E nc ns a])"
      proof (cases rule: bindA_E)
        case (raised e)
        then show ?thesis using true_div_silent by (fastforce simp: printed_def)
      next
        case (returned a w3 e5 e6)
        from true_div_silent [OF returned(1)] have "e5 = []" .
        moreover from returned(2) have "e6 = [Print (result_line E nc ns a)]"
          by (simp add: print_eq)
        ultimately have "printed e4 = [result_line E nc ns a]"
          using returned(3) by (simp add: printed_def)
        then show ?thesis by blast
      qed
      with e1 e3 \<open>evs = _\<close> \<open>rest = e1 @ e2\<close> \<open>e2 = e3 @ e4\<close> show ?thesis
        by (auto simp: printed_append)
    qed
  qed
  then show ?thesis
    unfolding evs by (auto simp: printed_def)
qed

lemma result_line_not_header:
  "result_line E nc ns a \<noteq> ''Checking accuracy on validation set''"
  "result_line E nc ns a \<noteq> ''Checking accuracy on test set''"
  "''Checking accuracy on validation set'' \<noteq> result_line E nc ns a"
  "''Checking accuracy on test set'' \<noteq> result_line E nc ns a"
  by (simp_all add: result_line_def)

lemma check_accuracy_header_printed:
  assumes "check_accuracy E model loader w = (r, w', evs)"
  shows "(''Checking accuracy on validation set'' \<in> set (printed evs))
           = dataset_train (dataset loader)"
    and "(''Checking accuracy on test set'' \<in> set (printed evs))
           = (\<not> dataset_train (dataset loader))"
proof -
  from check_accuracy_printed [OF assms] consider
    (one) "printed evs = [header_line loader]"
    | (two) nc ns a where "printed evs = [header_line loader, result_line E nc ns a]"
    by blast
  then have "set (printed evs) \<inter> {''Checking accuracy on validation set'', ''Checking accuracy on test set''}
      = {header_line loader}"
  proof cases
    case one
    then show ?thesis by (simp add: header_line_def)
  next
    case two
    then show ?thesis by (simp add: header_line_def result_line_not_header)
  qed
  then have m: "s \<in> set (printed evs) \<longleftrightarrow> s = header_line loader"
    if "s \<in> {''Checking accuracy on validation set'', ''Checking accuracy on test set''}" for s
    using that by blast
  show "(''Checking accuracy on validation set'' \<in> set (printed evs))
           = dataset_train (dataset loader)"
    using m [of "''Checking accuracy on validation set''"] by (simp add: header_line_def)
  show "(''Checking accuracy on test set'' \<in> set (printed evs))
           = (\<not> dataset_train (dataset loader))"
    using m [of "''Checking accuracy on test set''"] by (simp add: header_line_def)
qed

text \<open>
  C10. The first thing \<open>check_accuracy\<close> does is print its header, chosen by
  \<open>loader.dataset.train\<close> alone: the line \<open>'Checking accuracy on validation set'\<close> is
  printed if and only if the flag is true, the line \<open>'Checking accuracy on test set'\<close> if
  and only if it is false, whether the call returns or raises. The datasets of
  \<open>loader_train\<close> and \<open>loader_val\<close> have the flag set, so both are announced as the
  validation set; that of \<open>loader_test\<close> has not.
\<close>

theorem header_from_train_flag:
  "(check_accuracy E model loader w = (r, w', evs) \<longrightarrow>
      (\<exists>rest. evs = Print (if dataset_train (dataset loader)
                           then ''Checking accuracy on validation set''
                           else ''Checking accuracy on test set'') # rest)
      \<and> (''Checking accuracy on validation set'' \<in> set (printed evs))
           = dataset_train (dataset loader)
      \<and> (''Checking accuracy on test set'' \<in> set (printed evs))
           = (\<not> dataset_train (dataset loader)))
   \<and> dataset_train (dataset (loader_train ys1))
   \<and> dataset_train (dataset (loader_val ys2))
   \<and> \<not> dataset_train (dataset (loader_test ys3))"
proof (intro conjI impI)
  assume run: "check_accuracy E model loader w = (r, w', evs)"
  from check_accuracy_header [OF run]
  show "\<exists>rest. evs = Print (if dataset_train (dataset loader)
                           then ''Checking accuracy on validation set''
                           else ''Checking accuracy on test set'') # rest"
    by (simp add: header_line_def)
  from check_accuracy_header_printed [OF run]
  show "(''Checking accuracy on validation set'' \<in> set (printed evs))
           = dataset_train (dataset loader)"
    and "(''Checking accuracy on test set'' \<in> set (printed evs))
           = (\<not> dataset_train (dataset loader))"
    by simp_all
next
  show "dataset_train (dataset (loader_train ys1))"
    by (simp add: loader_train_def cifar10_train_def)
  show "dataset_train (dataset (loader_val ys2))"
    by (simp add: loader_val_def cifar10_val_def)
  show "\<not> dataset_train (dataset (loader_test ys3))"
    by (simp add: loader_test_def cifar10_test_def)
qed

theorem header_from_train_flag_witness:
  "check_accuracy toy_env (toy_module 0) (loader_train (toy_batches 3)) toy_start
     = (Inr (), toy_start,
        [Print ''Checking accuracy on validation set'', Call ModelEval None]
        @ batch_events @ batch_events @ batch_events
        @ [Print ''Got 3 / 6 correct (500000)''])
   \<and> dataset_train (dataset (loader_train (toy_batches 3)))
   \<and> ''Checking accuracy on validation set''
        \<in> set (printed ([Print ''Checking accuracy on validation set'', Call ModelEval None]
                @ batch_events @ batch_events @ batch_events
                @ [Print ''Got 3 / 6 correct (500000)'']))
   \<and> ''Checking accuracy on test set''
        \<notin> set (printed ([Print ''Checking accuracy on validation set'', Call ModelEval None]
                @ batch_events @ batch_events @ batch_events
                @ [Print ''Got 3 / 6 correct (500000)'']))"
proof -
  let ?L = "loader_train (toy_batches 3) :: int list DataLoader"
  have flag: "dataset_train (dataset ?L)"
    by (simp add: loader_train_def cifar10_train_def)
  have run: "check_accuracy toy_env (toy_module 0) ?L toy_start
     = (Inr (), toy_start,
        [Print ''Checking accuracy on validation set'', Call ModelEval None]
        @ batch_events @ batch_events @ batch_events
        @ [Print ''Got 3 / 6 correct (500000)''])"
    using toy_check [of ?L] flag by (simp add: loader_train_def header_line_def)
  note t = header_from_train_flag [where E = toy_env and model = "toy_module 0" and loader = ?L
      and w = toy_start, THEN conjunct1, rule_format, OF run]
  from t flag show ?thesis
    using run by simp
qed

section \<open>Exceptions are not caught\<close>

lemma raised_in_raises: "Call k (Some e) \<in> set evs \<Longrightarrow> e \<in> set (raises evs)"
  by (induction evs) (auto simp: raises_def)

lemma propagated_unchanged:
  assumes "propagated own r evs" and "Call k (Some e) \<in> set evs"
  shows "r = Inl e \<and> last evs = Call k (Some e) \<and> raises evs = [e]"
proof (cases r)
  case (Inr a)
  with assms(1) have "raises evs = []" by (simp add: propagated_def)
  with raised_in_raises [OF assms(2)] show ?thesis by simp
next
  case (Inl e')
  from raised_in_raises [OF assms(2)] have "raises evs \<noteq> []" by auto
  with assms(1) Inl obtain k' pre where
    evs: "evs = pre @ [Call k' (Some e')]" and pre: "raises pre = []"
    by (auto simp: propagated_def)
  from assms(2) evs have "Call k (Some e) \<in> set pre \<or> (k = k' \<and> e = e')" by auto
  with pre raised_in_raises [of k e pre] have "k = k'" "e = e'" by auto
  with Inl evs pre show ?thesis by (simp add: raises_append) (simp add: raises_def)
qed

lemma propagated_raised:
  assumes "propagated own (Inl e) evs"
  shows "(\<exists>k. evs \<noteq> [] \<and> last evs = Call k (Some e)) \<or> (own \<and> e = ZeroDivisionError \<and> raises evs = [])"
  using assms by (auto simp: propagated_def)

text \<open>
  C7. In \<open>train\<close> and in \<open>check_accuracy\<close>, when a framework call raises \<open>e\<close>, that call is
  the last thing the helper does (no later call, no printed line, no second attempt),
  it is the only call of the run that raised, and the helper raises this same \<open>e\<close>.
  \<open>train\<close> raises nothing else. \<open>check_accuracy\<close> raises nothing else but the
  \<open>ZeroDivisionError\<close> of its own division, after calls that all returned.
\<close>

theorem exceptions_propagate:
  "(train E loader model loss_fn optimizer n w = (r, w', evs) \<longrightarrow>
      (Call k (Some e) \<in> set evs \<longrightarrow>
         r = Inl e \<and> last evs = Call k (Some e) \<and> raises evs = [e])
      \<and> (r = Inl e' \<longrightarrow> (\<exists>k'. evs \<noteq> [] \<and> last evs = Call k' (Some e'))))
   \<and> (check_accuracy E model loader2 w2 = (r2, w2', evs2) \<longrightarrow>
      (Call k (Some e) \<in> set evs2 \<longrightarrow>
         r2 = Inl e \<and> last evs2 = Call k (Some e) \<and> raises evs2 = [e])
      \<and> (r2 = Inl e' \<longrightarrow>
            (\<exists>k'. evs2 \<noteq> [] \<and> last evs2 = Call k' (Some e'))
            \<or> (e' = ZeroDivisionError \<and> raises evs2 = [])))"
proof (intro conjI impI)
  assume run: "train E loader model loss_fn optimizer n w = (r, w', evs)"
  with propagates_train [of E loader model loss_fn optimizer n]
  have p: "propagated False r evs" by (auto simp: propagates_def)
  {
    assume "Call k (Some e) \<in> set evs"
    from propagated_unchanged [OF p this]
    show "r = Inl e" "last evs = Call k (Some e)" "raises evs = [e]" by simp_all
  }
  {
    assume "r = Inl e'"
    with p propagated_raised [of False e' evs]
    show "\<exists>k'. evs \<noteq> [] \<and> last evs = Call k' (Some e')" by simp
  }
next
  assume run: "check_accuracy E model loader2 w2 = (r2, w2', evs2)"
  with propagates_check_accuracy [of E model loader2]
  have p: "propagated True r2 evs2" by (auto simp: propagates_def)
  {
    assume "Call k (Some e) \<in> set evs2"
    from propagated_unchanged [OF p this]
    show "r2 = Inl e" "last evs2 = Call k (Some e)" "raises evs2 = [e]" by simp_all
  }
  {
    assume "r2 = Inl e'"
    with p propagated_raised [of True e' evs2]
    show "(\<exists>k'. evs2 \<noteq> [] \<and> last evs2 = Call k' (Some e'))
            \<or> (e' = ZeroDivisionError \<and> raises evs2 = [])" by simp
  }
qed

lemma broken_train:
  "train toy_env (loader_train (toy_batches 3)) broken_module toy_loss_fn (toy_optimizer 0) 1 toy_start
     = (Inl (FrameworkError ''size mismatch''), toy_start,
        [Print ''Starting epoch 1 / 1'', Call ModelTrain None, Call LoaderNext None,
         Call ToVariable None, Call ToLongVariable None,
         Call Forward (Some (FrameworkError ''size mismatch''))])"
  unfolding toy_batches_3
  by (simp add: run_defs toy_env_def broken_module_def loader_train_def epoch_line_def show_int_def
      show_nat.simps digit_def)

lemma empty_check:
  "check_accuracy toy_env (toy_module 0) (loader_test [] :: int list DataLoader) toy_start
     = (Inl ZeroDivisionError, toy_start,
        [Print ''Checking accuracy on test set'', Call ModelEval None])"
  by (simp add: run_defs toy_env_def toy_module_def loader_test_def cifar10_test_def)

theorem exceptions_propagate_witness:
  "train toy_env (loader_train (toy_batches 3)) broken_module toy_loss_fn (toy_optimizer 0) 1 toy_start
     = (Inl (FrameworkError ''size mismatch''), toy_start,
        [Print ''Starting epoch 1 / 1'', Call ModelTrain None, Call LoaderNext None,
         Call ToVariable None, Call ToLongVariable None,
         Call Forward (Some (FrameworkError ''size mismatch''))])
   \<and> raises [Print ''Starting epoch 1 / 1'', Call ModelTrain None, Call LoaderNext None,
         Call ToVariable None, Call ToLongVariable None,
         Call Forward (Some (FrameworkError ''size mismatch''))]
       = [FrameworkError ''size mismatch'']
   \<and> check_accuracy toy_env (toy_module 0) (loader_test [] :: int list DataLoader) toy_start
     = (Inl ZeroDivisionError, toy_start,
        [Print ''Checking accuracy on test set'', Call ModelEval None])
   \<and> raises [Print ''Checking accuracy on test set'', Call ModelEval None] = []"
proof -
  note t = exceptions_propagate [where E = toy_env and loader = "loader_train (toy_batches 3)"
      and model = broken_module and loss_fn = toy_loss_fn and optimizer = "toy_optimizer 0"
      and n = 1 and w = toy_start and k = Forward and e = "FrameworkError ''size mismatch''",
      THEN conjunct1, rule_format, OF broken_train, THEN conjunct1, rule_format]
  have "raises [Print ''Starting epoch 1 / 1'', Call ModelTrain None, Call LoaderNext None,
         Call ToVariable None, Call ToLongVariable None,
         Call Forward (Some (FrameworkError ''size mismatch''))]
       = [FrameworkError ''size mismatch'']"
    using t by simp
  moreover have "raises [Print ''Checking accuracy on test set'', Call ModelEval None] = []"
    by (simp add: raises_def)
  ultimately show ?thesis
    using broken_train empty_check by simp
qed

section \<open>Which parameters a training run changes\<close>

lemmas notebook_defs = run_notebook_def for_in_def bindA_def ret_def raise_def fresh_def
    cell_simple_model_def cell_fixed_model_def cell_gpu_copy_def cell_rmsprop_def cell_training_loop_def
    cell_train_fixed_def cell_train_great_def cell_test_def
    alloc_def record_life_def global_def assign_def nn_Sequential_def deepcopy_def optim_def apply_reset_def
    training_run_def fixed_model_base_def simple_model_def best_model_layers_def

lemma notebook_runs: "fst (run_notebook fresh) = Inr ()"
  by (simp add: notebook_defs)

lemma notebook_history:
  "history after_all_cells
     = [Constructed 0, Constructed 3, Copied 6 3, Trained 6 8, Reset 6, Trained 6 8,
        Constructed 9, Trained 9 11]"
  by (simp add: after_all_cells_def notebook_defs)

lemma notebook_globals:
  "v_simple_model after_all_cells = Some 0"
  "v_fixed_model after_all_cells = Some 3"
  "v_fixed_model_gpu after_all_cells = Some 6"
  "v_model after_all_cells = Some 9"
  by (simp_all add: after_all_cells_def notebook_defs)

lemma notebook_optimizers:
  "heap after_all_cells ! 2 = Optimizer Adam 0 ''1e-2''"
  "heap after_all_cells ! 5 = Optimizer RMSprop 0 ''1e-2''"
  "heap after_all_cells ! 8 = Optimizer RMSprop 6 ''1e-3''"
  "heap after_all_cells ! 11 = Optimizer Adam 9 ''5e-4''"
  "length (heap after_all_cells) = 12"
  by (simp_all add: after_all_cells_def notebook_defs)

text \<open>
  C6 (as the code has it). The parameters of \<open>fixed_model_gpu\<close> (the object 6) are not
  initialised once: they come from the deep copy of \<open>fixed_model_base\<close>, are trained by
  the loop of the cell that trains in place, are initialised again by
  \<open>fixed_model_gpu.apply(reset)\<close>, and are trained again by \<open>train\<close>.
\<close>

theorem fixed_model_gpu_initialised_twice:
  "fst (run_notebook fresh) = Inr ()
   \<and> v_fixed_model_gpu after_all_cells = Some 6
   \<and> history after_all_cells
       = [Constructed 0, Constructed 3, Copied 6 3, Trained 6 8, Reset 6, Trained 6 8,
          Constructed 9, Trained 9 11]
   \<and> filter (initialises 6) (history after_all_cells) = [Copied 6 3, Reset 6]"
  using notebook_runs notebook_globals(3) notebook_history by simp

text \<open>
  The optimizer constructed in the cell of \<open>fixed_model\<close> is over the parameters of
  \<open>simple_model\<close>. It is replaced, two cells later, before any training run.
\<close>

lemma fixed_model_cell_optimizer:
  "v_simple_model after_all_cells = Some 0
   \<and> v_fixed_model after_all_cells = Some 3
   \<and> heap after_all_cells ! 5 = Optimizer RMSprop 0 ''1e-2''
   \<and> Trained 3 5 \<notin> set (history after_all_cells)"
  using notebook_globals(1,2) notebook_optimizers(2) by (simp add: notebook_history)

lemma keepsA_training_loop:
  assumes "built_over P owner E model loss_fn optimizer"
  shows "keepsA P {owner} (training_loop E loader model loss_fn optimizer)"
  unfolding training_loop_def
proof (intro keepsA_for_in keepsA_bindA keepsA_train_batch [OF assms])
  show "keepsA P {owner} (invoke ModelTrain (m_train model))"
    using assms by (intro keepsA_invoke [where S' = "{}"]) (auto simp: built_over_def)
qed

text \<open>
  C6, amended. The parameters of a model are initialised when it is constructed or
  copied, and again when \<open>apply(reset)\<close> is called on it; they are changed by training
  steps. In each of the three training runs of the notebook (the loop on
  \<open>fixed_model_gpu\<close>, \<open>train\<close> on \<open>fixed_model_gpu\<close>, \<open>train\<close> on \<open>model\<close>), the optimizer
  used was constructed over the parameters of the model being trained. And when
  \<open>optimizer.step()\<close> changes the parameters of no module but the one the optimizer was
  constructed over, and no other call changes any parameter (\<open>built_over\<close>), a run of
  \<open>train\<close> or of the loop leaves the parameters of every other module as they were.
\<close>

theorem optimizer_updates_trained_model:
  "fst (run_notebook fresh) = Inr ()
   \<and> history after_all_cells
       = [Constructed 0, Constructed 3, Copied 6 3, Trained 6 8, Reset 6, Trained 6 8,
          Constructed 9, Trained 9 11]
   \<and> list_all (built_for (heap after_all_cells)) (history after_all_cells)
   \<and> v_fixed_model_gpu after_all_cells = Some 6
   \<and> heap after_all_cells ! 8 = Optimizer RMSprop 6 ''1e-3''
   \<and> v_model after_all_cells = Some 9
   \<and> heap after_all_cells ! 11 = Optimizer Adam 9 ''5e-4''
   \<and> (built_over P owner E model loss_fn optimizer \<longrightarrow> m \<noteq> owner \<longrightarrow>
        (train E loader model loss_fn optimizer n w = (r, w', evs) \<longrightarrow> P w' m = P w m)
        \<and> (training_loop E loader model loss_fn optimizer w = (r, w', evs) \<longrightarrow> P w' m = P w m))"
proof -
  have built: "list_all (built_for (heap after_all_cells)) (history after_all_cells)"
    unfolding notebook_history by (simp add: notebook_optimizers)
  have frame: "P w' m = P w m"
    if "built_over P owner E model loss_fn optimizer" "m \<noteq> owner"
      "train E loader model loss_fn optimizer n w = (r, w', evs)"
    using keepsA_train [OF that(1), of loader n] that(2,3) unfolding keepsA_def by blast
  have frame2: "P w' m = P w m"
    if "built_over P owner E model loss_fn optimizer" "m \<noteq> owner"
      "training_loop E loader model loss_fn optimizer w = (r, w', evs)"
    using keepsA_training_loop [OF that(1), of loader] that(2,3) unfolding keepsA_def by blast
  show ?thesis
    using notebook_runs notebook_history built notebook_globals(3,4) notebook_optimizers(3,4)
      frame frame2
    by (intro conjI impI) assumption+
qed

lemma toy_train_world:
  "fst (snd (train toy_env (loader_train (toy_batches 3)) (toy_module 0) toy_loss_fn (toy_optimizer 0) 1
     toy_start)) = toy_start(0 := 3)"
  unfolding toy_batches_3
  by (simp add: train_def train_epoch_def for_in_def range2_def bindA_def print_def invoke_def
      toy_m_train loader_train_def toy_train_batch ret_def toy_start_def)

theorem optimizer_updates_trained_model_witness:
  "built_over (\<lambda>w m. w m) 0 toy_env (toy_module 0) toy_loss_fn (toy_optimizer 0)
   \<and> fst (snd (train toy_env (loader_train (toy_batches 3)) (toy_module 0) toy_loss_fn
        (toy_optimizer 0) 1 toy_start)) 0 = 3
   \<and> toy_start 0 = 0
   \<and> fst (snd (train toy_env (loader_train (toy_batches 3)) (toy_module 0) toy_loss_fn
        (toy_optimizer 0) 1 toy_start)) 1 = toy_start 1"
proof -
  let ?R = "train toy_env (loader_train (toy_batches 3)) (toy_module 0) toy_loss_fn (toy_optimizer 0) 1
     toy_start"
  have run: "?R = (fst ?R, fst (snd ?R), snd (snd ?R))" by simp
  have ne: "(1::nat) \<noteq> 0" by simp
  note t = optimizer_updates_trained_model [where P = "\<lambda>w m. w m" and owner = 0 and E = toy_env
      and model = "toy_module 0" and loss_fn = toy_loss_fn and optimizer = "toy_optimizer 0"
      and m = 1 and loader = "loader_train (toy_batches 3)" and n = 1 and w = toy_start]
  from t have "built_over (\<lambda>w m. w m) 0 toy_env (toy_module 0) toy_loss_fn (toy_optimizer 0) \<longrightarrow>
      (1::nat) \<noteq> 0 \<longrightarrow>
      (?R = (fst ?R, fst (snd ?R), snd (snd ?R)) \<longrightarrow> fst (snd ?R) 1 = toy_start 1)"
    by blast
  with toy_built_over ne run have "fst (snd ?R) 1 = toy_start 1" by blast
  moreover have "fst (snd ?R) 0 = 3" by (simp add: toy_train_world)
  moreover have "toy_start 0 = 0" by (simp add: toy_start_def)
  ultimately show ?thesis using toy_built_over by simp
qed

end
